theory Spec2Isabelle
  imports Main
begin

text \<open>
  An embedding of the authentication core of heimdall-sso: the access control check
  (server/oauth.ts), the token service (server/jwt.ts), the user directory
  (database/postgres-adapter.ts), the request middleware (server/middleware.ts) and the
  login and role handlers (server/routes.ts). Functions keep the names of the source.
  State that the source mutates (the users table, the limiter's map, the request) is
  passed in and returned; what a middleware does with the exchange is the list of its
  calls; a thrown error is the left summand of a result.
\<close>

section \<open>JavaScript strings, arrays and values\<close>

text \<open>
  A string is the list of its characters. \<open>String.prototype.toLowerCase\<close> belongs to
  the language, with its Unicode case tables; the functions that call it take it as the
  argument \<open>toLowerCase\<close>.
\<close>

text \<open>\<open>s.split(sep)\<close> for a separator of one character: the pieces between separators.\<close>

fun split_str :: "char \<Rightarrow> string \<Rightarrow> string list" where
  "split_str sep [] = [[]]"
| "split_str sep (c # cs) =
     (if c = sep then [] # split_str sep cs
      else (case split_str sep cs of
              [] \<Rightarrow> [[c]]
            | p # ps \<Rightarrow> (c # p) # ps))"

text \<open>An array read \<open>xs[i]\<close>: \<open>undefined\<close> (here \<open>None\<close>) out of range.\<close>

definition nth_opt :: "'a list \<Rightarrow> nat \<Rightarrow> 'a option" where
  "nth_opt xs i = (if i < length xs then Some (xs ! i) else None)"

text \<open>\<open>xs.includes(v)\<close> where \<open>v\<close> may be \<open>undefined\<close> and \<open>xs\<close> holds strings only.\<close>

definition includes_opt :: "string list \<Rightarrow> string option \<Rightarrow> bool" where
  "includes_opt xs v = (case v of None \<Rightarrow> False | Some s \<Rightarrow> s \<in> set xs)"

text \<open>Truthiness of a value that is a string or \<open>undefined\<close>, and of an optional boolean.\<close>

definition truthy_str :: "string option \<Rightarrow> bool" where
  "truthy_str v = (case v of None \<Rightarrow> False | Some s \<Rightarrow> s \<noteq> [])"

definition truthy_bool :: "bool option \<Rightarrow> bool" where
  "truthy_bool v = (case v of None \<Rightarrow> False | Some b \<Rightarrow> b)"

text \<open>\<open>Number.prototype.toString\<close> on integers: decimal digits, a minus sign when negative.\<close>

fun nat_digits :: "nat \<Rightarrow> string" where
  "nat_digits n =
     (if n < 10 then [''0123456789'' ! n]
      else nat_digits (n div 10) @ [''0123456789'' ! (n mod 10)])"

definition int_toString :: "int \<Rightarrow> string" where
  "int_toString i = (if i < 0 then CHR ''-'' # nat_digits (nat (- i)) else nat_digits (nat i))"

text \<open>A thrown \<open>Error\<close>, by its message.\<close>

datatype js_error = Error (message: string)

section \<open>Types (types/index.ts)\<close>

text \<open>\<open>id: number | string\<close>.\<close>

datatype js_id = IdNum int | IdStr string

fun id_toString :: "js_id \<Rightarrow> string" where
  "id_toString (IdNum n) = int_toString n"
| "id_toString (IdStr s) = s"

text \<open>
  Interface \<open>User\<close>. The fields marked optional in the interface are options; a field
  name carries the prefix \<open>u_\<close>.
\<close>

record User =
  u_id :: js_id
  u_email :: string
  u_name :: string
  u_role :: string
  u_avatar :: "string option"
  u_provider :: "string option"
  u_createdAt :: "nat option"
  u_updatedAt :: "nat option"
  u_lastLogin :: "nat option"
  u_isActive :: "bool option"

text \<open>Interface \<open>JWTPayload\<close> (prefix \<open>p_\<close>); times are seconds.\<close>

record JWTPayload =
  p_userId :: js_id
  p_email :: string
  p_role :: string
  p_iat :: "nat option"
  p_exp :: "nat option"

text \<open>\<open>HeimdallOptions.accessControl\<close>.\<close>

record accessControl =
  allowedDomains :: "string list option"
  allowedEmails :: "string list option"

section \<open>Access control (OAuthService.checkAccessControl)\<close>

text \<open>
  \<open>const { allowedDomains = [], allowedEmails = [] } = this.options.accessControl || {}\<close>
\<close>

definition domains_of :: "accessControl option \<Rightarrow> string list" where
  "domains_of ac =
     (case ac of None \<Rightarrow> [] | Some a \<Rightarrow> (case allowedDomains a of None \<Rightarrow> [] | Some ds \<Rightarrow> ds))"

definition emails_of :: "accessControl option \<Rightarrow> string list" where
  "emails_of ac =
     (case ac of None \<Rightarrow> [] | Some a \<Rightarrow> (case allowedEmails a of None \<Rightarrow> [] | Some es \<Rightarrow> es))"

definition checkAccessControl ::
  "(string \<Rightarrow> string) \<Rightarrow> accessControl option \<Rightarrow> string \<Rightarrow> bool" where
  "checkAccessControl toLowerCase ac email =
     (let allowedDomains = domains_of ac; allowedEmails = emails_of ac in
      if length allowedDomains = 0 \<and> length allowedEmails = 0 then True
      else
        let emailLower = toLowerCase email;
            domain = nth_opt (split_str (CHR ''@'') emailLower) 1
        in if length allowedEmails > 0 \<and> emailLower \<in> set allowedEmails then True
           else if length allowedDomains > 0 \<and> includes_opt allowedDomains domain then True
           else False)"

text \<open>
  The specification's reading of the same check, for comparison: the domain is everything
  after the first \<open>@\<close>, and both comparisons ignore case on both sides.
\<close>

definition after_first :: "char \<Rightarrow> string \<Rightarrow> string" where
  "after_first sep s = drop 1 (dropWhile (\<lambda>c. c \<noteq> sep) s)"

definition isAllowed_spec ::
  "(string \<Rightarrow> string) \<Rightarrow> accessControl option \<Rightarrow> string \<Rightarrow> bool" where
  "isAllowed_spec toLowerCase ac email =
     (if domains_of ac = [] \<and> emails_of ac = [] then True
      else toLowerCase (after_first (CHR ''@'') email) \<in> set (map toLowerCase (domains_of ac))
         \<or> toLowerCase email \<in> set (map toLowerCase (emails_of ac)))"

text \<open>What the code takes for the domain: the piece between the first \<open>@\<close> and the next.\<close>

definition second_piece :: "char \<Rightarrow> string \<Rightarrow> string" where
  "second_piece sep s = takeWhile (\<lambda>c. c \<noteq> sep) (after_first sep s)"

section \<open>Token service (jwt.ts)\<close>

text \<open>
  The service keeps the secret and the expiry duration. The duration is modelled by its
  length in seconds; the default \<open>'7d'\<close> is seven days.
\<close>

record JWTService =
  secret :: string
  expiresIn :: nat

definition seven_days :: nat where
  "seven_days = 7 * 24 * 60 * 60"

definition JWTService_new :: "string \<Rightarrow> nat option \<Rightarrow> js_error + JWTService" where
  "JWTService_new s e =
     (if s = [] \<or> length s < 32
      then Inl (Error ''JWT secret must be at least 32 characters long'')
      else Inr \<lparr>secret = s, expiresIn = (case e of None \<Rightarrow> seven_days | Some d \<Rightarrow> d)\<rparr>)"

text \<open>
  What \<open>jwt.verify\<close> of the package \<open>jsonwebtoken\<close> throws. \<open>TokenExpiredError\<close> and
  \<open>NotBeforeError\<close> are subclasses of \<open>JsonWebTokenError\<close>; \<open>OtherError\<close> stands for
  any error outside that hierarchy.
\<close>

datatype jwt_exn =
    TokenExpiredError string
  | NotBeforeError string
  | JsonWebTokenError string
  | OtherError string

fun exn_message :: "jwt_exn \<Rightarrow> string" where
  "exn_message (TokenExpiredError m) = m"
| "exn_message (NotBeforeError m) = m"
| "exn_message (JsonWebTokenError m) = m"
| "exn_message (OtherError m) = m"

fun instanceof_TokenExpiredError :: "jwt_exn \<Rightarrow> bool" where
  "instanceof_TokenExpiredError (TokenExpiredError m) = True"
| "instanceof_TokenExpiredError e = False"

fun instanceof_JsonWebTokenError :: "jwt_exn \<Rightarrow> bool" where
  "instanceof_JsonWebTokenError (OtherError m) = False"
| "instanceof_JsonWebTokenError e = True"

text \<open>
  \<open>generateToken\<close> and \<open>verifyToken\<close>. The package's \<open>sign\<close> and \<open>verify\<close> are
  arguments: \<open>sign payload key duration now\<close> and \<open>verify token key now\<close>, for any
  representation \<open>'t\<close> of tokens.
\<close>

definition generateToken ::
  "(JWTPayload \<Rightarrow> string \<Rightarrow> nat \<Rightarrow> nat \<Rightarrow> 't) \<Rightarrow> JWTService \<Rightarrow> nat \<Rightarrow> User \<Rightarrow> 't" where
  "generateToken sign svc now user =
     (let payload = \<lparr>p_userId = u_id user, p_email = u_email user, p_role = u_role user,
                      p_iat = None, p_exp = None\<rparr>
      in sign payload (secret svc) (expiresIn svc) now)"

definition verifyToken ::
  "('t \<Rightarrow> string \<Rightarrow> nat \<Rightarrow> jwt_exn + JWTPayload) \<Rightarrow> JWTService \<Rightarrow> nat \<Rightarrow> 't
     \<Rightarrow> js_error + JWTPayload" where
  "verifyToken verify svc now token =
     (case verify token (secret svc) now of
        Inr decoded \<Rightarrow> Inr decoded
      | Inl error \<Rightarrow>
          if instanceof_TokenExpiredError error then Inl (Error ''Token has expired'')
          else if instanceof_JsonWebTokenError error then Inl (Error ''Invalid token'')
          else Inl (Error (exn_message error)))"

definition extractTokenFromHeader :: "string option \<Rightarrow> string option" where
  "extractTokenFromHeader authHeader =
     (case authHeader of
        None \<Rightarrow> None
      | Some h \<Rightarrow>
          if h = [] then None
          else let parts = split_str (CHR '' '') h
               in if length parts \<noteq> 2 \<or> parts ! 0 \<noteq> ''Bearer'' then None
                  else Some (parts ! 1))"

subsection \<open>The token package\<close>

text \<open>
  Modelled from the spec: the package \<open>jsonwebtoken\<close>, which jwt.ts imports and whose
  source is not part of the repository. Tokens are symbolic: a token is either not a
  well-formed token at all, or a payload together with the key that signed it (no token
  can be forged without the key). \<open>jwt_sign\<close> stamps the issue time and the expiry
  \<open>issue time + duration\<close> into the payload and signs it. \<open>jwt_verify\<close> validates
  signature and expiry in this order: a malformed token and a token signed with another
  key are rejected with \<open>JsonWebTokenError\<close>; a well-signed token whose expiry is at or
  before the current time is rejected with \<open>TokenExpiredError\<close>.
\<close>

datatype jwt = Malformed string | Signed JWTPayload string

definition jwt_sign :: "JWTPayload \<Rightarrow> string \<Rightarrow> nat \<Rightarrow> nat \<Rightarrow> jwt" where
  "jwt_sign payload key duration now =
     Signed (payload\<lparr>p_iat := Some now, p_exp := Some (now + duration)\<rparr>) key"

definition jwt_verify :: "jwt \<Rightarrow> string \<Rightarrow> nat \<Rightarrow> jwt_exn + JWTPayload" where
  "jwt_verify token key now =
     (case token of
        Malformed s \<Rightarrow> Inl (JsonWebTokenError ''jwt malformed'')
      | Signed payload k \<Rightarrow>
          if k \<noteq> key then Inl (JsonWebTokenError ''invalid signature'')
          else (case p_exp payload of
                  None \<Rightarrow> Inr payload
                | Some e \<Rightarrow> if now \<ge> e then Inl (TokenExpiredError ''jwt expired'')
                            else Inr payload))"

text \<open>The expiry a token carries, if it has a readable payload with one.\<close>

fun token_expiry :: "jwt \<Rightarrow> nat option" where
  "token_expiry (Malformed s) = None"
| "token_expiry (Signed payload k) = p_exp payload"

section \<open>User directory (database/postgres-adapter.ts)\<close>

text \<open>
  A row of table \<open>users\<close>, one field per column of the \<open>CREATE TABLE\<close> statement
  (prefix \<open>c_\<close>); timestamps are numbers. The database is the table and the sequence
  behind \<open>id SERIAL\<close>.
\<close>

record users_row =
  c_id :: int
  c_email :: string
  c_name :: string
  c_role :: string
  c_avatar :: "string option"
  c_provider :: "string option"
  c_created_at :: nat
  c_updated_at :: nat
  c_last_login :: "nat option"
  c_is_active :: bool

record database =
  users :: "users_row list"
  users_id_seq :: int

text \<open>
  The adapter returns \<open>result.rows[0]\<close> as it comes from the driver: an object with one
  property per column, named as the column is. Read as a \<open>User\<close>, it has \<open>id\<close>,
  \<open>email\<close>, \<open>name\<close>, \<open>role\<close>, \<open>avatar\<close> and \<open>provider\<close>; the columns
  \<open>created_at\<close>, \<open>updated_at\<close>, \<open>last_login\<close> and \<open>is_active\<close> are not the
  properties \<open>createdAt\<close>, \<open>updatedAt\<close>, \<open>lastLogin\<close> and \<open>isActive\<close>, which
  are therefore \<open>undefined\<close>.
\<close>

definition row_object :: "users_row \<Rightarrow> User" where
  "row_object r =
     \<lparr>u_id = IdNum (c_id r), u_email = c_email r, u_name = c_name r, u_role = c_role r,
      u_avatar = c_avatar r, u_provider = c_provider r,
      u_createdAt = None, u_updatedAt = None, u_lastLogin = None, u_isActive = None\<rparr>"

text \<open>
  A query parameter compared with the integer column \<open>id\<close> (\<open>WHERE id = $n\<close>). A
  number stands for itself; a string is sent as text and read by the storage engine with
  its integer input, which is the argument \<open>int4in\<close> (\<open>None\<close>: the text is not an
  integer and the statement fails). PostgreSQL's integer input accepts leading zeros, a
  sign and surrounding blanks, so that the text \<open>01\<close> is read as 1.
\<close>

definition id_param :: "(string \<Rightarrow> int option) \<Rightarrow> js_id \<Rightarrow> int option" where
  "id_param int4in v = (case v of IdNum n \<Rightarrow> Some n | IdStr s \<Rightarrow> int4in s)"

definition getUserByEmail :: "database \<Rightarrow> string \<Rightarrow> User option" where
  "getUserByEmail db email = map_option row_object (find (\<lambda>r. c_email r = email) (users db))"

definition getUserById :: "(string \<Rightarrow> int option) \<Rightarrow> database \<Rightarrow> js_id \<Rightarrow> User option" where
  "getUserById int4in db v =
     (case id_param int4in v of
        None \<Rightarrow> None
      | Some i \<Rightarrow> map_option row_object (find (\<lambda>r. c_id r = i) (users db)))"

definition getAllUsers :: "database \<Rightarrow> User list" where
  "getAllUsers db = map row_object (sort_key (\<lambda>r. - int (c_created_at r)) (users db))"

text \<open>
  \<open>createOrUpdateUser\<close>. A statement fails, and the method returns \<open>null\<close>, when a
  value is longer than its \<open>VARCHAR\<close> column; \<open>provider_or_default\<close> is
  \<open>provider || 'microsoft'\<close>.
\<close>

definition provider_or_default :: "string option \<Rightarrow> string" where
  "provider_or_default provider =
     (case provider of
        None \<Rightarrow> ''microsoft''
      | Some p \<Rightarrow> if p = [] then ''microsoft'' else p)"

definition createOrUpdateUser ::
  "database \<Rightarrow> nat \<Rightarrow> string \<Rightarrow> string \<Rightarrow> string option \<Rightarrow> database \<times> User option" where
  "createOrUpdateUser db now email name provider =
     (case getUserByEmail db email of
        Some existingUser \<Rightarrow>
          if length name > 255 then (db, None)
          else
            let rows = map (\<lambda>r. if c_email r = email
                                 then r\<lparr>c_name := name, c_last_login := Some now, c_updated_at := now\<rparr>
                                 else r) (users db)
            in (db\<lparr>users := rows\<rparr>, map_option row_object (find (\<lambda>r. c_email r = email) rows))
      | None \<Rightarrow>
          let userCount = length (users db);
              role = (if userCount = 0 then ''super_admin'' else ''user'');
              prov = provider_or_default provider
          in if length email > 255 \<or> length name > 255 \<or> length prov > 50 then (db, None)
             else
               let row = \<lparr>c_id = users_id_seq db, c_email = email, c_name = name, c_role = role,
                          c_avatar = None, c_provider = Some prov, c_created_at = now,
                          c_updated_at = now, c_last_login = Some now, c_is_active = True\<rparr>
               in (db\<lparr>users := users db @ [row], users_id_seq := users_id_seq db + 1\<rparr>,
                   Some (row_object row)))"

text \<open>
  \<open>updateUserRole\<close>: the statement fails (result \<open>false\<close>) when the role violates the
  \<open>CHECK\<close> constraint or the id is not an integer; otherwise the result tells whether a
  row was updated.
\<close>

definition updateUserRole ::
  "(string \<Rightarrow> int option) \<Rightarrow> database \<Rightarrow> nat \<Rightarrow> js_id \<Rightarrow> string \<Rightarrow> database \<times> bool" where
  "updateUserRole int4in db now userId role =
     (if role \<notin> set [''user'', ''admin'', ''super_admin''] then (db, False)
      else (case id_param int4in userId of
              None \<Rightarrow> (db, False)
            | Some i \<Rightarrow>
                (db\<lparr>users := map (\<lambda>r. if c_id r = i then r\<lparr>c_role := role, c_updated_at := now\<rparr>
                                        else r) (users db)\<rparr>,
                 length (filter (\<lambda>r. c_id r = i) (users db)) > 0)))"

section \<open>Requests, responses and the middleware (server/middleware.ts)\<close>

text \<open>
  The parts of a request the code reads: the \<open>Authorization\<close> header, the cookie
  \<open>auth_token\<close>, the query parameter \<open>token\<close> and the header \<open>x-auth-token\<close> (the
  last two only when they are strings), the client address, and the attached user.
\<close>

record Request =
  h_authorization :: "string option"
  cookie_auth_token :: "string option"
  query_token :: "string option"
  h_x_auth_token :: "string option"
  req_ip :: "string option"
  req_user :: "User option"

text \<open>
  A JSON body sent by the middleware or by the role handler, and what a middleware does
  with the exchange: it sends a response with a status, or calls \<open>next()\<close>.
\<close>

datatype body =
    ErrorBody string
  | ErrorMessageBody string string
  | RetryBody string int
  | UserBody "User option"

datatype event = Respond nat body | CallNext

definition extractToken :: "Request \<Rightarrow> string option" where
  "extractToken req =
     (let headerToken = extractTokenFromHeader (h_authorization req) in
      if truthy_str headerToken then headerToken
      else if truthy_str (cookie_auth_token req) then cookie_auth_token req
      else if truthy_str (query_token req) then query_token req
      else if truthy_str (h_x_auth_token req) then h_x_auth_token req
      else None)"

definition authenticate ::
  "(string \<Rightarrow> string \<Rightarrow> nat \<Rightarrow> jwt_exn + JWTPayload) \<Rightarrow> JWTService \<Rightarrow> (string \<Rightarrow> int option)
     \<Rightarrow> database \<Rightarrow> nat \<Rightarrow> Request \<Rightarrow> Request \<times> event list" where
  "authenticate verify svc int4in db now req =
     (case extractToken req of
        None \<Rightarrow> (req, [Respond 401 (ErrorBody ''No authentication token provided'')])
      | Some token \<Rightarrow>
          if token = [] then (req, [Respond 401 (ErrorBody ''No authentication token provided'')])
          else
            (case verifyToken verify svc now token of
               Inl error \<Rightarrow>
                 if message error = ''Token has expired''
                 then (req, [Respond 401 (ErrorBody ''Token has expired'')])
                 else if message error = ''Invalid token''
                 then (req, [Respond 401 (ErrorBody ''Invalid token'')])
                 else (req, [Respond 500 (ErrorBody ''Authentication failed'')])
             | Inr payload \<Rightarrow>
                 (case getUserById int4in db (p_userId payload) of
                    None \<Rightarrow> (req, [Respond 401 (ErrorBody ''User not found'')])
                  | Some user \<Rightarrow>
                      if \<not> truthy_bool (u_isActive user)
                      then (req, [Respond 403 (ErrorBody ''User account is deactivated'')])
                      else (req\<lparr>req_user := Some user\<rparr>, [CallNext]))))"

definition requireAdmin :: "Request \<Rightarrow> Request \<times> event list" where
  "requireAdmin req =
     (case req_user req of
        None \<Rightarrow> (req, [Respond 401 (ErrorBody ''Authentication required'')])
      | Some user \<Rightarrow>
          if u_role user \<noteq> ''admin'' \<and> u_role user \<noteq> ''super_admin''
          then (req, [Respond 403 (ErrorBody ''Admin access required'')])
          else (req, [CallNext]))"


text \<open>
  \<open>optionalAuth\<close>: the \<open>try\<close> block gives the request as it leaves the block, or the
  error thrown in it; the \<open>catch\<close> drops the error, and \<open>next()\<close> follows in both cases.
\<close>

definition optionalAuth_try ::
  "(string \<Rightarrow> string \<Rightarrow> nat \<Rightarrow> jwt_exn + JWTPayload) \<Rightarrow> JWTService \<Rightarrow> (string \<Rightarrow> int option)
     \<Rightarrow> database \<Rightarrow> nat \<Rightarrow> Request \<Rightarrow> js_error + Request" where
  "optionalAuth_try verify svc int4in db now req =
     (case extractToken req of
        None \<Rightarrow> Inr req
      | Some token \<Rightarrow>
          if token = [] then Inr req
          else
            (case verifyToken verify svc now token of
               Inl error \<Rightarrow> Inl error
             | Inr payload \<Rightarrow>
                 (case getUserById int4in db (p_userId payload) of
                    None \<Rightarrow> Inr req
                  | Some user \<Rightarrow>
                      if truthy_bool (u_isActive user) then Inr (req\<lparr>req_user := Some user\<rparr>)
                      else Inr req)))"

definition optionalAuth ::
  "(string \<Rightarrow> string \<Rightarrow> nat \<Rightarrow> jwt_exn + JWTPayload) \<Rightarrow> JWTService \<Rightarrow> (string \<Rightarrow> int option)
     \<Rightarrow> database \<Rightarrow> nat \<Rightarrow> Request \<Rightarrow> Request \<times> event list" where
  "optionalAuth verify svc int4in db now req =
     (case optionalAuth_try verify svc int4in db now req of
        Inl error \<Rightarrow> (req, [CallNext])
      | Inr req' \<Rightarrow> (req', [CallNext]))"

subsection \<open>Rate limiting\<close>

text \<open>
  The map \<open>requests\<close> of the closure is passed in and returned. Times are milliseconds;
  \<open>ceil_div a b\<close> is \<open>Math.ceil(a / b)\<close> on integers, for a positive \<open>b\<close>;
  \<open>identifier_of\<close> is \<open>req.ip || 'unknown'\<close>.
\<close>

record rate_entry =
  count :: int
  resetTime :: int

definition ceil_div :: "int \<Rightarrow> int \<Rightarrow> int" where
  "ceil_div a b = - ((- a) div b)"

definition identifier_of :: "Request \<Rightarrow> string" where
  "identifier_of req =
     (case req_ip req of
        None \<Rightarrow> ''unknown''
      | Some a \<Rightarrow> if a = [] then ''unknown'' else a)"

definition rateLimit ::
  "int \<Rightarrow> int \<Rightarrow> (string \<rightharpoonup> rate_entry) \<Rightarrow> Request \<Rightarrow> int
     \<Rightarrow> (string \<rightharpoonup> rate_entry) \<times> event list" where
  "rateLimit maxRequests windowMs requests req now =
     (let identifier = identifier_of req;
          fresh = (requests(identifier \<mapsto> \<lparr>count = 1, resetTime = now + windowMs\<rparr>), [CallNext])
      in case requests identifier of
           None \<Rightarrow> fresh
         | Some userRequests \<Rightarrow>
             if now > resetTime userRequests then fresh
             else if count userRequests \<ge> maxRequests
             then (requests,
                   [Respond 429 (RetryBody ''Too many requests''
                                   (ceil_div (resetTime userRequests - now) 1000))])
             else (requests(identifier \<mapsto> userRequests\<lparr>count := count userRequests + 1\<rparr>),
                   [CallNext]))"

text \<open>One limiter serving a sequence of requests, each with its arrival time.\<close>

fun rateLimit_run ::
  "int \<Rightarrow> int \<Rightarrow> (string \<rightharpoonup> rate_entry) \<Rightarrow> (Request \<times> int) list
     \<Rightarrow> (string \<rightharpoonup> rate_entry) \<times> event list list" where
  "rateLimit_run maxRequests windowMs requests [] = (requests, [])"
| "rateLimit_run maxRequests windowMs requests ((req, now) # rest) =
     (case rateLimit maxRequests windowMs requests req now of
        (requests', events) \<Rightarrow>
          (case rateLimit_run maxRequests windowMs requests' rest of
             (requests'', others) \<Rightarrow> (requests'', events # others)))"

section \<open>Route handlers (server/routes.ts)\<close>

text \<open>
  The body of \<open>POST /sso-login\<close> and the reply: an error, or the token and the user.
  The handler takes the language's \<open>toLowerCase\<close> and the package's \<open>sign\<close>.
\<close>

record sso_login_body =
  b_email :: "string option"
  b_name :: "string option"
  b_provider :: "string option"
  b_avatar :: "string option"

record session_user =
  s_id :: js_id
  s_email :: string
  s_name :: string
  s_role :: string
  s_avatar :: "string option"
  s_provider :: string

datatype 't sso_reply = Failure nat body | Session 't session_user

fun reply_status :: "'t sso_reply \<Rightarrow> nat" where
  "reply_status (Failure st b) = st"
| "reply_status (Session t u) = 200"

fun reply_token :: "'t sso_reply \<Rightarrow> 't option" where
  "reply_token (Failure st b) = None"
| "reply_token (Session t u) = Some t"

definition sso_login ::
  "(string \<Rightarrow> string) \<Rightarrow> (JWTPayload \<Rightarrow> string \<Rightarrow> nat \<Rightarrow> nat \<Rightarrow> 't) \<Rightarrow> accessControl option
     \<Rightarrow> JWTService \<Rightarrow> database \<Rightarrow> nat \<Rightarrow> sso_login_body \<Rightarrow> database \<times> 't sso_reply" where
  "sso_login toLowerCase sign ac svc db now b =
     (let provider = (case b_provider b of None \<Rightarrow> ''microsoft'' | Some p \<Rightarrow> p);
          avatar = b_avatar b
      in case b_email b of
           None \<Rightarrow> (db, Failure 400 (ErrorBody ''Email and name are required''))
         | Some email \<Rightarrow>
             (case b_name b of
                None \<Rightarrow> (db, Failure 400 (ErrorBody ''Email and name are required''))
              | Some name \<Rightarrow>
                  if email = [] \<or> name = []
                  then (db, Failure 400 (ErrorBody ''Email and name are required''))
                  else if \<not> checkAccessControl toLowerCase ac email
                  then (db, Failure 403
                              (ErrorMessageBody ''Access denied''
                                 ''Your email is not authorized to access this application''))
                  else
                    (case createOrUpdateUser db now email name (Some provider) of
                       (db', None) \<Rightarrow>
                         (db', Failure 500 (ErrorBody ''Failed to create or update user''))
                     | (db', Some user) \<Rightarrow>
                         (db', Session (generateToken sign svc now user)
                                 \<lparr>s_id = u_id user, s_email = u_email user,
                                  s_name = u_name user, s_role = u_role user,
                                  s_avatar = (if truthy_str avatar then avatar else u_avatar user),
                                  s_provider = provider\<rparr>))))"

text \<open>
  The handler of \<open>PUT /users/:userId/role\<close>: \<open>userId\<close> is the path parameter, a string;
  \<open>role\<close> is the field of the body, absent or a string.
\<close>

definition update_role_handler ::
  "(string \<Rightarrow> int option) \<Rightarrow> database \<Rightarrow> nat \<Rightarrow> string \<Rightarrow> string option
     \<Rightarrow> database \<times> nat \<times> body" where
  "update_role_handler int4in db now userId role =
     (case role of
        None \<Rightarrow> (db, 400, ErrorBody ''Invalid role'')
      | Some role \<Rightarrow>
          if role \<notin> set [''user'', ''admin'', ''super_admin'']
          then (db, 400, ErrorBody ''Invalid role'')
          else if role \<noteq> ''super_admin'' \<and>
                  (let allUsers = getAllUsers db;
                       superAdmins = filter (\<lambda>u. u_role u = ''super_admin'') allUsers
                   in length superAdmins = 1 \<and> id_toString (u_id (superAdmins ! 0)) = userId)
          then (db, 400, ErrorMessageBody ''Cannot remove the last super admin''
                           ''At least one super admin must exist'')
          else
            (case updateUserRole int4in db now (IdStr userId) role of
               (db', success) \<Rightarrow>
                 if success then (db', 200, UserBody (getUserById int4in db' (IdStr userId)))
                 else (db', 404, ErrorBody ''User not found'')))"


text \<open>
  The super admins of the directory, and an integer input for texts of plain decimal
  digits (leading zeros included), to stand for the storage engine's in the instances.
\<close>

definition super_admins :: "database \<Rightarrow> users_row list" where
  "super_admins db = filter (\<lambda>r. c_role r = ''super_admin'') (users db)"

fun digits_value :: "string \<Rightarrow> nat \<Rightarrow> nat option" where
  "digits_value [] acc = Some acc"
| "digits_value (c # cs) acc =
     (case map_of (zip ''0123456789'' [0, 1, 2, 3, 4, 5, 6, 7, 8, 9]) c of
        None \<Rightarrow> None
      | Some d \<Rightarrow> digits_value cs (10 * acc + d))"

definition digits_in :: "string \<Rightarrow> int option" where
  "digits_in s = (if s = [] then None else map_option int (digits_value s 0))"

section \<open>Sample data\<close>

text \<open>
  Concrete values for the instances below: a service, a policy, a directory with an active
  super admin (Ann) and a deactivated user (Bob), a stand-in for the token package on
  strings, and a request carrying a bearer token.
\<close>

text \<open>
  \<open>toLowerCase\<close> on strings of ASCII characters, where it turns the letters A to Z into
  a to z and leaves every other character as it is. It stands for the language's function
  in the instances, all of which are ASCII strings.
\<close>

definition ascii_toLowerCase_char :: "char \<Rightarrow> char" where
  "ascii_toLowerCase_char c =
     (case map_of (zip ''ABCDEFGHIJKLMNOPQRSTUVWXYZ'' ''abcdefghijklmnopqrstuvwxyz'') c of
        None \<Rightarrow> c
      | Some l \<Rightarrow> l)"

definition ascii_toLowerCase :: "string \<Rightarrow> string" where
  "ascii_toLowerCase s = map ascii_toLowerCase_char s"

definition sample_service :: JWTService where
  "sample_service = \<lparr>secret = ''0123456789abcdef0123456789abcdef'', expiresIn = seven_days\<rparr>"

definition sample_policy :: "accessControl option" where
  "sample_policy = Some \<lparr>allowedDomains = Some [''acme.com''], allowedEmails = None\<rparr>"

definition ann_row :: users_row where
  "ann_row = \<lparr>c_id = 1, c_email = ''ann@acme.com'', c_name = ''Ann'', c_role = ''super_admin'',
              c_avatar = None, c_provider = Some ''microsoft'', c_created_at = 5,
              c_updated_at = 5, c_last_login = Some 5, c_is_active = True\<rparr>"

definition bob_row :: users_row where
  "bob_row = \<lparr>c_id = 2, c_email = ''bob@acme.com'', c_name = ''Bob'', c_role = ''user'',
              c_avatar = None, c_provider = Some ''microsoft'', c_created_at = 6,
              c_updated_at = 7, c_last_login = Some 6, c_is_active = False\<rparr>"

definition empty_db :: database where
  "empty_db = \<lparr>users = [], users_id_seq = 1\<rparr>"

definition ann_db :: database where
  "ann_db = \<lparr>users = [ann_row], users_id_seq = 2\<rparr>"

definition sample_db :: database where
  "sample_db = \<lparr>users = [ann_row, bob_row], users_id_seq = 3\<rparr>"

definition claims_of :: "users_row \<Rightarrow> JWTPayload" where
  "claims_of r = \<lparr>p_userId = IdNum (c_id r), p_email = c_email r, p_role = c_role r,
                  p_iat = Some 0, p_exp = Some 3600\<rparr>"

definition sample_verify :: "string \<Rightarrow> string \<Rightarrow> nat \<Rightarrow> jwt_exn + JWTPayload" where
  "sample_verify token key now =
     (if token = ''ann-token'' then Inr (claims_of ann_row)
      else if token = ''bob-token'' then Inr (claims_of bob_row)
      else if token = ''eve-token'' then Inr ((claims_of bob_row)\<lparr>p_userId := IdNum 7\<rparr>)
      else if token = ''old-token'' then Inl (TokenExpiredError ''jwt expired'')
      else Inl (JsonWebTokenError ''jwt malformed''))"

definition bearer :: "string \<Rightarrow> Request" where
  "bearer token =
     \<lparr>h_authorization = Some (''Bearer '' @ token), cookie_auth_token = None,
      query_token = None, h_x_auth_token = None, req_ip = Some ''10.0.0.1'',
      req_user = None\<rparr>"

definition plain_request :: Request where
  "plain_request =
     \<lparr>h_authorization = None, cookie_auth_token = None, query_token = None,
      h_x_auth_token = None, req_ip = Some ''10.0.0.1'', req_user = None\<rparr>"

section \<open>Properties of the access control check\<close>

declare nat_digits.simps [simp del]

lemma split_str_not_Nil [simp]: "split_str sep s \<noteq> []"
  by (induction s) (auto split: list.splits)

lemma hd_split_str: "hd (split_str sep s) = takeWhile (\<lambda>c. c \<noteq> sep) s"
  by (induction s) (auto split: list.splits)

text \<open>
  The element \<open>[1]\<close> of the split is the piece between the first separator and the next
  one, and it is \<open>undefined\<close> when the string has no separator.
\<close>

lemma split_str_second:
  "nth_opt (split_str sep s) (Suc 0) = (if sep \<in> set s then Some (second_piece sep s) else None)"
proof (induction s)
  case Nil
  show ?case by (simp add: nth_opt_def)
next
  case (Cons c cs)
  obtain p ps where ps: "split_str sep cs = p # ps"
    by (cases "split_str sep cs") auto
  show ?case
  proof (cases "c = sep")
    case True
    have "p = takeWhile (\<lambda>c. c \<noteq> sep) cs"
      using hd_split_str [of sep cs] ps by simp
    with True ps show ?thesis
      by (simp add: nth_opt_def second_piece_def after_first_def)
  next
    case False
    have "nth_opt (split_str sep (c # cs)) (Suc 0) = nth_opt (split_str sep cs) (Suc 0)"
      using False ps by (simp add: nth_opt_def)
    with Cons False show ?thesis
      by (simp add: second_piece_def after_first_def)
  qed
qed

lemma checkAccessControl_iff:
  "checkAccessControl toLowerCase ac email \<longleftrightarrow>
     domains_of ac = [] \<and> emails_of ac = []
   \<or> toLowerCase email \<in> set (emails_of ac)
   \<or> CHR ''@'' \<in> set (toLowerCase email)
     \<and> second_piece (CHR ''@'') (toLowerCase email) \<in> set (domains_of ac)"
  by (auto simp: checkAccessControl_def Let_def split_str_second includes_opt_def)

lemma single_separator:
  assumes "length (filter (\<lambda>c. c = sep) s) = 1"
  shows "second_piece sep s = after_first sep s" and "sep \<in> set s"
proof -
  show in_s: "sep \<in> set s"
    using assms by (induction s) (auto split: if_splits)
  have front: "filter (\<lambda>c. c = sep) (takeWhile (\<lambda>c. c \<noteq> sep) s) = []"
    by (induction s) auto
  obtain r where r: "dropWhile (\<lambda>c. c \<noteq> sep) s = sep # r"
    using in_s by (metis (mono_tags, lifting) dropWhile_eq_Nil_conv hd_dropWhile list.exhaust_sel)
  have "length (filter (\<lambda>c. c = sep) s)
      = length (filter (\<lambda>c. c = sep) (takeWhile (\<lambda>c. c \<noteq> sep) s))
      + length (filter (\<lambda>c. c = sep) (dropWhile (\<lambda>c. c \<noteq> sep) s))"
    by (metis filter_append length_append takeWhile_dropWhile_id)
  with assms r front have "filter (\<lambda>c. c = sep) r = []"
    by simp
  then have "\<forall>c\<in>set r. c \<noteq> sep"
    by (simp add: filter_empty_conv)
  then have "takeWhile (\<lambda>c. c \<noteq> sep) r = r"
    by (simp add: takeWhile_eq_all_conv)
  with r show "second_piece sep s = after_first sep s"
    by (simp add: second_piece_def after_first_def)
qed

lemma at_most_one_separator:
  assumes "length (filter (\<lambda>c. c = sep) s) \<le> 1" and "sep \<in> set s"
  shows "second_piece sep s = after_first sep s"
proof -
  have "filter (\<lambda>c. c = sep) s \<noteq> []"
    using assms(2) by (auto simp: filter_empty_conv)
  then have "length (filter (\<lambda>c. c = sep) s) \<noteq> 0"
    by simp
  with assms(1) have "length (filter (\<lambda>c. c = sep) s) = 1"
    by linarith
  then show ?thesis
    by (rule single_separator(1))
qed

lemma checkAccessControl_one_at:
  assumes "length (filter (\<lambda>c. c = CHR ''@'') (toLowerCase email)) \<le> 1"
  shows "checkAccessControl toLowerCase ac email \<longleftrightarrow>
       domains_of ac = [] \<and> emails_of ac = []
     \<or> toLowerCase email \<in> set (emails_of ac)
     \<or> CHR ''@'' \<in> set (toLowerCase email)
       \<and> after_first (CHR ''@'') (toLowerCase email) \<in> set (domains_of ac)"
  using at_most_one_separator [of "CHR ''@''" "toLowerCase email"] assms
  by (auto simp: checkAccessControl_iff)

text \<open>
  C1 (amended). For an email whose lower-cased form has at most one \<open>@\<close>: the check
  returns true when both lists are empty; otherwise it returns true iff the lower-cased
  email is an entry of the email list, or it has an \<open>@\<close> and what follows the \<open>@\<close> in
  it is an entry of the domain list. Only the input is lower-cased: two emails with the
  same lower-cased form get the same answer, and the configured entries are compared as
  they are written. When the lists are written in lower case (and lower-casing commutes
  with taking what follows the \<open>@\<close>, as it does for \<open>toLowerCase\<close>), this is the check
  of the specification. Emails with more than one \<open>@\<close> are left out.
\<close>

theorem checkAccessControl_decides:
  "length (filter (\<lambda>c. c = CHR ''@'') (toLowerCase email)) \<le> 1 \<longrightarrow>
   (checkAccessControl toLowerCase ac email \<longleftrightarrow>
       domains_of ac = [] \<and> emails_of ac = []
     \<or> toLowerCase email \<in> set (emails_of ac)
     \<or> CHR ''@'' \<in> set (toLowerCase email)
       \<and> after_first (CHR ''@'') (toLowerCase email) \<in> set (domains_of ac))
   \<and> (toLowerCase email = toLowerCase email'
        \<longrightarrow> checkAccessControl toLowerCase ac email = checkAccessControl toLowerCase ac email')
   \<and> (CHR ''@'' \<in> set (toLowerCase email)
        \<and> toLowerCase (after_first (CHR ''@'') email) = after_first (CHR ''@'') (toLowerCase email)
        \<and> map toLowerCase (domains_of ac) = domains_of ac
        \<and> map toLowerCase (emails_of ac) = emails_of ac
        \<longrightarrow> checkAccessControl toLowerCase ac email = isAllowed_spec toLowerCase ac email)"
proof (rule impI)
  assume one: "length (filter (\<lambda>c. c = CHR ''@'') (toLowerCase email)) \<le> 1"
  note iff = checkAccessControl_one_at [of toLowerCase email ac, OF one]
  have same: "checkAccessControl toLowerCase ac email = checkAccessControl toLowerCase ac email'"
    if "toLowerCase email = toLowerCase email'"
    using that by (simp add: checkAccessControl_iff)
  have agrees: "checkAccessControl toLowerCase ac email = isAllowed_spec toLowerCase ac email"
    if h: "CHR ''@'' \<in> set (toLowerCase email)
        \<and> toLowerCase (after_first (CHR ''@'') email) = after_first (CHR ''@'') (toLowerCase email)
        \<and> map toLowerCase (domains_of ac) = domains_of ac
        \<and> map toLowerCase (emails_of ac) = emails_of ac"
  proof -
    from h have ds: "map toLowerCase (domains_of ac) = domains_of ac"
      and es: "map toLowerCase (emails_of ac) = emails_of ac"
      by simp_all
    show ?thesis
      unfolding iff isAllowed_spec_def ds es using h by auto
  qed
  from iff same agrees
  show "(checkAccessControl toLowerCase ac email \<longleftrightarrow>
       domains_of ac = [] \<and> emails_of ac = []
     \<or> toLowerCase email \<in> set (emails_of ac)
     \<or> CHR ''@'' \<in> set (toLowerCase email)
       \<and> after_first (CHR ''@'') (toLowerCase email) \<in> set (domains_of ac))
   \<and> (toLowerCase email = toLowerCase email'
        \<longrightarrow> checkAccessControl toLowerCase ac email = checkAccessControl toLowerCase ac email')
   \<and> (CHR ''@'' \<in> set (toLowerCase email)
        \<and> toLowerCase (after_first (CHR ''@'') email) = after_first (CHR ''@'') (toLowerCase email)
        \<and> map toLowerCase (domains_of ac) = domains_of ac
        \<and> map toLowerCase (emails_of ac) = emails_of ac
        \<longrightarrow> checkAccessControl toLowerCase ac email = isAllowed_spec toLowerCase ac email)"
    by blast
qed

lemma ascii_lower_sample: "ascii_toLowerCase ''X@ACME.COM'' = ''x@acme.com''"
  and ascii_lower_sample': "ascii_toLowerCase ''x@acme.com'' = ''x@acme.com''"
  and ascii_lower_domain: "ascii_toLowerCase ''acme.com'' = ''acme.com''"
  and ascii_lower_domain': "ascii_toLowerCase ''ACME.COM'' = ''acme.com''"
  by (simp_all add: ascii_toLowerCase_def ascii_toLowerCase_char_def)

theorem checkAccessControl_decides_witness:
  "checkAccessControl ascii_toLowerCase
     (Some \<lparr>allowedDomains = Some [''acme.com''], allowedEmails = Some []\<rparr>) ''X@ACME.COM''
   \<and> checkAccessControl ascii_toLowerCase
       (Some \<lparr>allowedDomains = Some [''acme.com''], allowedEmails = Some []\<rparr>) ''x@acme.com''
   \<and> isAllowed_spec ascii_toLowerCase
       (Some \<lparr>allowedDomains = Some [''acme.com''], allowedEmails = Some []\<rparr>) ''X@ACME.COM''"
proof -
  let ?ac = "Some \<lparr>allowedDomains = Some [''acme.com''], allowedEmails = Some []\<rparr>"
  have dom: "domains_of ?ac = [''acme.com'']" and em: "emails_of ?ac = []"
    by (simp_all add: domains_of_def emails_of_def)
  have one: "length (filter (\<lambda>c. c = CHR ''@'') (ascii_toLowerCase ''X@ACME.COM'')) \<le> 1"
    by (simp add: ascii_lower_sample)
  have same: "ascii_toLowerCase ''X@ACME.COM'' = ascii_toLowerCase ''x@acme.com''"
    by (simp add: ascii_lower_sample ascii_lower_sample')
  have hyp: "CHR ''@'' \<in> set (ascii_toLowerCase ''X@ACME.COM'')
        \<and> ascii_toLowerCase (after_first (CHR ''@'') ''X@ACME.COM'')
            = after_first (CHR ''@'') (ascii_toLowerCase ''X@ACME.COM'')
        \<and> map ascii_toLowerCase (domains_of ?ac) = domains_of ?ac
        \<and> map ascii_toLowerCase (emails_of ?ac) = emails_of ?ac"
    by (simp add: dom em ascii_lower_sample ascii_lower_domain ascii_lower_domain'
        after_first_def)
  note fact = checkAccessControl_decides
    [of ascii_toLowerCase "''X@ACME.COM''" ?ac "''x@acme.com''", THEN mp, OF one]
  have a: "checkAccessControl ascii_toLowerCase ?ac ''X@ACME.COM''"
    using fact by (simp add: ascii_lower_sample dom em after_first_def)
  have b: "checkAccessControl ascii_toLowerCase ?ac ''x@acme.com''"
    using fact same a by simp
  have c: "isAllowed_spec ascii_toLowerCase ?ac ''X@ACME.COM''"
    using fact hyp a by simp
  from a b c show ?thesis by simp
qed

text \<open>
  The claim as stated fails for an entry written with a capital letter: the entry is
  compared as it is written and never matches a lower-cased email, although the
  specification's check ignores its case.
\<close>

theorem checkAccessControl_counterexample:
  "\<not> checkAccessControl ascii_toLowerCase
       (Some \<lparr>allowedDomains = Some [''Acme.com''], allowedEmails = None\<rparr>) ''x@acme.com''
   \<and> isAllowed_spec ascii_toLowerCase
       (Some \<lparr>allowedDomains = Some [''Acme.com''], allowedEmails = None\<rparr>) ''x@acme.com''"
  by (simp add: checkAccessControl_def isAllowed_spec_def domains_of_def emails_of_def
      ascii_toLowerCase_def ascii_toLowerCase_char_def nth_opt_def includes_opt_def
      after_first_def)

section \<open>Properties of the token service\<close>

lemma verifyToken_jwt:
  "verifyToken jwt_verify svc now token =
     (case token of
        Malformed s \<Rightarrow> Inl (Error ''Invalid token'')
      | Signed payload k \<Rightarrow>
          if k \<noteq> secret svc then Inl (Error ''Invalid token'')
          else (case p_exp payload of
                  None \<Rightarrow> Inr payload
                | Some e \<Rightarrow> if e \<le> now then Inl (Error ''Token has expired'') else Inr payload))"
  by (simp add: verifyToken_def jwt_verify_def split: jwt.splits option.splits)

text \<open>
  C2 (amended). A token signed with the service's secret whose expiry is at or before the
  current time is refused with ``Token has expired'', and only such tokens are. A
  malformed token and a token signed with another key are refused with ``Invalid token'',
  whether their expiry has passed or not.
\<close>

theorem verifyToken_expired_or_invalid:
  "(token = Signed payload (secret svc) \<and> p_exp payload = Some e \<and> e \<le> now
      \<longrightarrow> verifyToken jwt_verify svc now token = Inl (Error ''Token has expired''))
   \<and> (token = Malformed s \<or> token = Signed payload k \<and> k \<noteq> secret svc
      \<longrightarrow> verifyToken jwt_verify svc now token = Inl (Error ''Invalid token''))
   \<and> (verifyToken jwt_verify svc now token = Inl (Error ''Token has expired'')
      \<longrightarrow> (\<exists>p x. token = Signed p (secret svc) \<and> p_exp p = Some x \<and> x \<le> now))"
  by (auto simp: verifyToken_jwt split: jwt.splits option.splits if_splits)

theorem verifyToken_expired_or_invalid_witness:
  "verifyToken jwt_verify sample_service 3600 (Signed (claims_of ann_row) (secret sample_service))
     = Inl (Error ''Token has expired'')
   \<and> verifyToken jwt_verify sample_service 3600 (Malformed ''abc'') = Inl (Error ''Invalid token'')
   \<and> verifyToken jwt_verify sample_service 10 (Signed (claims_of ann_row) ''another key'')
     = Inl (Error ''Invalid token'')"
proof -
  have old: "p_exp (claims_of ann_row) = Some 3600 \<and> (3600::nat) \<le> 3600"
    by (simp add: claims_of_def)
  have other: "''another key'' \<noteq> secret sample_service"
    by (simp add: sample_service_def)
  have a: "verifyToken jwt_verify sample_service 3600
             (Signed (claims_of ann_row) (secret sample_service))
           = Inl (Error ''Token has expired'')"
    using verifyToken_expired_or_invalid
      [of "Signed (claims_of ann_row) (secret sample_service)" "claims_of ann_row"
          sample_service 3600 3600]
      old
    by blast
  have b: "verifyToken jwt_verify sample_service 3600 (Malformed ''abc'')
           = Inl (Error ''Invalid token'')"
    using verifyToken_expired_or_invalid
      [of "Malformed ''abc''" "claims_of ann_row" sample_service 3600 3600 "''abc''"]
    by blast
  have c: "verifyToken jwt_verify sample_service 10 (Signed (claims_of ann_row) ''another key'')
           = Inl (Error ''Invalid token'')"
    using verifyToken_expired_or_invalid
      [of "Signed (claims_of ann_row) ''another key''" "claims_of ann_row" sample_service
          3600 10 "''abc''" "''another key''"]
      other
    by blast
  from a b c show ?thesis by simp
qed

text \<open>
  The claim as stated fails for a token whose expiry has passed and whose signature does
  not match: the signature is validated first, and the answer is ``Invalid token''.
\<close>

theorem verifyToken_counterexample:
  "token_expiry (Signed (claims_of ann_row) ''another key'') = Some 3600
   \<and> (3600::nat) \<le> 7200
   \<and> verifyToken jwt_verify sample_service 7200 (Signed (claims_of ann_row) ''another key'')
     = Inl (Error ''Invalid token'')
   \<and> verifyToken jwt_verify sample_service 7200 (Signed (claims_of ann_row) ''another key'')
     \<noteq> Inl (Error ''Token has expired'')"
  by (simp add: verifyToken_jwt claims_of_def sample_service_def)

text \<open>
  C5. A token issued for a user at time \<open>now\<close> verifies at every time \<open>t\<close> before its
  expiry, and the claims returned carry the user's id, email and role, the issue time
  \<open>now\<close> and the expiry \<open>now + expiresIn\<close>; a service built without a duration
  uses seven days.
\<close>

theorem verify_generated_token:
  "(t < now + expiresIn svc
      \<longrightarrow> verifyToken jwt_verify svc t (generateToken jwt_sign svc now user)
          = Inr \<lparr>p_userId = u_id user, p_email = u_email user, p_role = u_role user,
                 p_iat = Some now, p_exp = Some (now + expiresIn svc)\<rparr>)
   \<and> (JWTService_new key None = Inr svc \<longrightarrow> expiresIn svc = 7 * 24 * 60 * 60)"
  by (auto simp: verifyToken_jwt generateToken_def jwt_sign_def JWTService_new_def seven_days_def
      split: if_splits)

theorem verify_generated_token_witness:
  "verifyToken jwt_verify sample_service 1000
     (generateToken jwt_sign sample_service 1000 (row_object ann_row))
   = Inr \<lparr>p_userId = IdNum 1, p_email = ''ann@acme.com'', p_role = ''super_admin'',
          p_iat = Some 1000, p_exp = Some 605800\<rparr>
   \<and> expiresIn sample_service = 604800"
proof -
  have fresh: "(1000::nat) < 1000 + expiresIn sample_service"
    by (simp add: sample_service_def seven_days_def)
  have built: "JWTService_new ''0123456789abcdef0123456789abcdef'' None = Inr sample_service"
    by (simp add: JWTService_new_def sample_service_def)
  note fact = verify_generated_token
    [of 1000 1000 sample_service "row_object ann_row" "''0123456789abcdef0123456789abcdef''"]
  have dur: "expiresIn sample_service = 604800"
    using fact built by simp
  have "verifyToken jwt_verify sample_service 1000
          (generateToken jwt_sign sample_service 1000 (row_object ann_row))
        = Inr \<lparr>p_userId = u_id (row_object ann_row), p_email = u_email (row_object ann_row),
               p_role = u_role (row_object ann_row), p_iat = Some 1000,
               p_exp = Some (1000 + expiresIn sample_service)\<rparr>"
    using fact fresh by blast
  then show ?thesis
    by (simp add: dur row_object_def ann_row_def)
qed

section \<open>Properties of the user directory and of the login\<close>

lemma find_append:
  "find P (xs @ ys) = (case find P xs of None \<Rightarrow> find P ys | Some x \<Rightarrow> Some x)"
  by (induction xs) auto

lemma getUserByEmail_None_iff:
  "getUserByEmail db email = None \<longleftrightarrow> (\<forall>r\<in>set (users db). c_email r \<noteq> email)"
  by (auto simp: getUserByEmail_def find_None_iff)

lemma createOrUpdateUser_new:
  assumes "getUserByEmail db email = None"
    and "length email \<le> 255" "length name \<le> 255" "length (provider_or_default provider) \<le> 50"
  shows "createOrUpdateUser db now email name provider =
     (db\<lparr>users := users db @
            [\<lparr>c_id = users_id_seq db, c_email = email, c_name = name,
              c_role = (if users db = [] then ''super_admin'' else ''user''),
              c_avatar = None, c_provider = Some (provider_or_default provider),
              c_created_at = now, c_updated_at = now, c_last_login = Some now,
              c_is_active = True\<rparr>],
          users_id_seq := users_id_seq db + 1\<rparr>,
      Some (row_object
            \<lparr>c_id = users_id_seq db, c_email = email, c_name = name,
              c_role = (if users db = [] then ''super_admin'' else ''user''),
              c_avatar = None, c_provider = Some (provider_or_default provider),
              c_created_at = now, c_updated_at = now, c_last_login = Some now,
              c_is_active = True\<rparr>))"
  using assms by (simp add: createOrUpdateUser_def Let_def)

lemma createOrUpdateUser_new_role:
  assumes none: "getUserByEmail db email = None"
    and c: "createOrUpdateUser db now email name provider = (db', Some user)"
  shows "u_role user = (if users db = [] then ''super_admin'' else ''user'')"
    and "u_email user = email"
    and "users db' \<noteq> []"
    and "getUserByEmail db' email = Some user"
proof -
  let ?row = "\<lparr>c_id = users_id_seq db, c_email = email, c_name = name,
              c_role = (if users db = [] then ''super_admin'' else ''user''),
              c_avatar = None, c_provider = Some (provider_or_default provider),
              c_created_at = now, c_updated_at = now, c_last_login = Some now,
              c_is_active = True\<rparr>"
  have nf: "find (\<lambda>r. c_email r = email) (users db) = None"
    using none by (simp add: getUserByEmail_def)
  have fits: "length email \<le> 255 \<and> length name \<le> 255
      \<and> length (provider_or_default provider) \<le> 50"
    using none c by (auto simp: createOrUpdateUser_def Let_def split: if_splits)
  then have "createOrUpdateUser db now email name provider =
     (db\<lparr>users := users db @ [?row], users_id_seq := users_id_seq db + 1\<rparr>,
      Some (row_object ?row))"
    using createOrUpdateUser_new [OF none] by simp
  with c have db': "db' = db\<lparr>users := users db @ [?row], users_id_seq := users_id_seq db + 1\<rparr>"
    and user: "user = row_object ?row"
    by simp_all
  show "u_role user = (if users db = [] then ''super_admin'' else ''user'')"
    by (simp add: user row_object_def)
  show "u_email user = email"
    by (simp add: user row_object_def)
  show "users db' \<noteq> []"
    by (simp add: db')
  show "getUserByEmail db' email = Some user"
    by (simp add: db' user getUserByEmail_def find_append nf)
qed

lemma createOrUpdateUser_first_two:
  assumes empty: "users db0 = []" and diff: "email1 \<noteq> email2"
    and c1: "createOrUpdateUser db0 now1 email1 name1 provider1 = (db1, Some user1)"
    and c2: "createOrUpdateUser db1 now2 email2 name2 provider2 = (db2, Some user2)"
  shows "u_role user1 = ''super_admin'' \<and> u_role user2 = ''user''"
proof -
  have none0: "getUserByEmail db0 email1 = None"
    using empty by (simp add: getUserByEmail_None_iff)
  have r1: "u_role user1 = ''super_admin''"
    using createOrUpdateUser_new_role(1) [OF none0 c1] empty by simp
  have ne: "users db1 \<noteq> []"
    by (rule createOrUpdateUser_new_role(3) [OF none0 c1])
  have "\<forall>r\<in>set (users db1). c_email r = email1"
    using c1 none0 empty
    by (auto simp: createOrUpdateUser_def Let_def split: if_splits)
  with diff have none1: "getUserByEmail db1 email2 = None"
    by (auto simp: getUserByEmail_None_iff)
  have "u_role user2 = ''user''"
    using createOrUpdateUser_new_role(1) [OF none1 c2] ne by simp
  with r1 show ?thesis by simp
qed

text \<open>
  C7. For an email that is not in the directory, and values that fit their columns,
  \<open>createOrUpdateUser\<close> creates the user, with role \<open>super_admin\<close> if the directory
  held no user and \<open>user\<close> otherwise; whenever it returns a created user, the role is
  that one. Starting from an empty directory, the first user created is a super admin and
  the second, under another email, is a plain user.
\<close>

theorem createOrUpdateUser_first_super_admin:
  "(getUserByEmail db email = None \<and> length email \<le> 255 \<and> length name \<le> 255
      \<and> length (provider_or_default provider) \<le> 50
      \<longrightarrow> (\<exists>db' user. createOrUpdateUser db now email name provider = (db', Some user)
            \<and> u_email user = email
            \<and> u_role user = (if users db = [] then ''super_admin'' else ''user'')
            \<and> getUserByEmail db' email = Some user))
   \<and> (getUserByEmail db email = None
      \<and> createOrUpdateUser db now email name provider = (db', Some user)
      \<longrightarrow> u_role user = (if users db = [] then ''super_admin'' else ''user''))
   \<and> (users db0 = [] \<and> email1 \<noteq> email2
      \<and> createOrUpdateUser db0 now1 email1 name1 provider1 = (db1, Some user1)
      \<and> createOrUpdateUser db1 now2 email2 name2 provider2 = (db2, Some user2)
      \<longrightarrow> u_role user1 = ''super_admin'' \<and> u_role user2 = ''user'')"
proof -
  have created: "\<exists>db' user. createOrUpdateUser db now email name provider = (db', Some user)
            \<and> u_email user = email
            \<and> u_role user = (if users db = [] then ''super_admin'' else ''user'')
            \<and> getUserByEmail db' email = Some user"
    if h: "getUserByEmail db email = None \<and> length email \<le> 255 \<and> length name \<le> 255
      \<and> length (provider_or_default provider) \<le> 50"
  proof -
    from h have none: "getUserByEmail db email = None" by simp
    obtain db' user where c: "createOrUpdateUser db now email name provider = (db', Some user)"
      using createOrUpdateUser_new [OF none, of name provider now] h by simp
    show ?thesis
      using createOrUpdateUser_new_role [OF none c] c by blast
  qed
  have role: "u_role user = (if users db = [] then ''super_admin'' else ''user'')"
    if "getUserByEmail db email = None
      \<and> createOrUpdateUser db now email name provider = (db', Some user)"
    using that createOrUpdateUser_new_role(1) [of db email now name provider db' user] by simp
  have two: "u_role user1 = ''super_admin'' \<and> u_role user2 = ''user''"
    if "users db0 = [] \<and> email1 \<noteq> email2
      \<and> createOrUpdateUser db0 now1 email1 name1 provider1 = (db1, Some user1)
      \<and> createOrUpdateUser db1 now2 email2 name2 provider2 = (db2, Some user2)"
    using that createOrUpdateUser_first_two [of db0 email1 email2 now1 name1 provider1 db1 user1
        now2 name2 provider2 db2 user2]
    by simp
  from created role two show ?thesis by blast
qed

theorem createOrUpdateUser_first_super_admin_witness:
  "createOrUpdateUser empty_db 5 ''ann@acme.com'' ''Ann'' None
     = (ann_db, Some (row_object ann_row))
   \<and> u_role (row_object ann_row) = ''super_admin''
   \<and> (\<exists>db2 user2. createOrUpdateUser ann_db 6 ''bob@acme.com'' ''Bob'' (Some ''microsoft'')
                     = (db2, Some user2)
         \<and> u_role user2 = ''user'')"
proof -
  have c1: "createOrUpdateUser empty_db 5 ''ann@acme.com'' ''Ann'' None
     = (ann_db, Some (row_object ann_row))"
    by (simp add: createOrUpdateUser_def getUserByEmail_def empty_db_def ann_db_def ann_row_def
        provider_or_default_def Let_def)
  have new: "getUserByEmail ann_db ''bob@acme.com'' = None \<and> length ''bob@acme.com'' \<le> 255
      \<and> length ''Bob'' \<le> 255 \<and> length (provider_or_default (Some ''microsoft'')) \<le> 50"
    by (simp add: getUserByEmail_def ann_db_def ann_row_def provider_or_default_def)
  note fact = createOrUpdateUser_first_super_admin
    [of ann_db "''bob@acme.com''" "''Bob''" "Some ''microsoft''" 6 _ _ empty_db
        "''ann@acme.com''" "''bob@acme.com''" 5 "''Ann''" None ann_db "row_object ann_row"]
  obtain db2 user2 where c2: "createOrUpdateUser ann_db 6 ''bob@acme.com'' ''Bob''
      (Some ''microsoft'') = (db2, Some user2)"
    using fact [of db2 user2 6 "''Bob''" "Some ''microsoft''" db2 user2] new by blast
  have start: "users empty_db = [] \<and> ''ann@acme.com'' \<noteq> ''bob@acme.com''"
    by (simp add: empty_db_def)
  have "u_role (row_object ann_row) = ''super_admin'' \<and> u_role user2 = ''user''"
    using fact [of db2 user2 6 "''Bob''" "Some ''microsoft''" db2 user2] start c1 c2 by blast
  with c1 c2 show ?thesis by blast
qed

text \<open>
  C4 (amended). A login request that carries a non-empty email and a non-empty name, and
  whose email the access control check denies, is answered 403 ``Access denied'' with the
  explanatory message. Every request whose email is denied, with or without a name,
  leaves the directory as it was and is answered without a token, with status 403 or 400.
\<close>

theorem sso_login_denied:
  "(b_email b = Some email \<and> email \<noteq> [] \<and> b_name b = Some name \<and> name \<noteq> []
      \<and> \<not> checkAccessControl toLowerCase ac email
      \<longrightarrow> sso_login toLowerCase sign ac svc db now b
          = (db, Failure 403 (ErrorMessageBody ''Access denied''
                                ''Your email is not authorized to access this application'')))
   \<and> (b_email b = Some email \<and> \<not> checkAccessControl toLowerCase ac email
      \<longrightarrow> fst (sso_login toLowerCase sign ac svc db now b) = db
        \<and> reply_token (snd (sso_login toLowerCase sign ac svc db now b)) = None
        \<and> (reply_status (snd (sso_login toLowerCase sign ac svc db now b)) = 403
           \<or> reply_status (snd (sso_login toLowerCase sign ac svc db now b)) = 400))"
  by (auto simp: sso_login_def Let_def split: option.splits)

lemma sample_policy_denies:
  "\<not> checkAccessControl ascii_toLowerCase sample_policy ''eve@other.com''"
  by (simp add: checkAccessControl_def sample_policy_def domains_of_def emails_of_def
      ascii_toLowerCase_def ascii_toLowerCase_char_def nth_opt_def includes_opt_def)

theorem sso_login_denied_witness:
  "sso_login ascii_toLowerCase jwt_sign sample_policy sample_service sample_db 9
     \<lparr>b_email = Some ''eve@other.com'', b_name = Some ''Eve'', b_provider = None,
      b_avatar = None\<rparr>
   = (sample_db, Failure 403 (ErrorMessageBody ''Access denied''
                                ''Your email is not authorized to access this application''))"
proof -
  let ?b = "\<lparr>b_email = Some ''eve@other.com'', b_name = Some ''Eve'', b_provider = None,
             b_avatar = None\<rparr>"
  have "b_email ?b = Some ''eve@other.com'' \<and> ''eve@other.com'' \<noteq> []
      \<and> b_name ?b = Some ''Eve'' \<and> ''Eve'' \<noteq> []
      \<and> \<not> checkAccessControl ascii_toLowerCase sample_policy ''eve@other.com''"
    using sample_policy_denies by simp
  then show ?thesis
    using sso_login_denied [of ?b "''eve@other.com''" "''Eve''" ascii_toLowerCase sample_policy
        jwt_sign sample_service sample_db 9]
    by blast
qed

text \<open>
  The claim as stated fails for a request with a denied email and no name: the answer is
  400, not 403 (the directory is unchanged all the same).
\<close>

theorem sso_login_counterexample:
  "\<not> checkAccessControl ascii_toLowerCase sample_policy ''eve@other.com''
   \<and> sso_login ascii_toLowerCase jwt_sign sample_policy sample_service sample_db 9
       \<lparr>b_email = Some ''eve@other.com'', b_name = None, b_provider = None, b_avatar = None\<rparr>
     = (sample_db, Failure 400 (ErrorBody ''Email and name are required''))"
  using sample_policy_denies by (simp add: sso_login_def)

section \<open>Properties of the middleware\<close>

lemma extractToken_nonempty: "extractToken req = Some t \<Longrightarrow> t \<noteq> []"
  by (auto simp: extractToken_def Let_def truthy_str_def split: if_splits option.splits)

lemma getUserById_row:
  "getUserById int4in db v = Some user \<longleftrightarrow>
     (\<exists>i r. id_param int4in v = Some i \<and> find (\<lambda>r. c_id r = i) (users db) = Some r
            \<and> user = row_object r)"
  by (auto simp: getUserById_def split: option.splits)

text \<open>A user read from the directory never has the property \<open>isActive\<close>.\<close>

lemma getUserById_isActive: "getUserById int4in db v = Some user \<Longrightarrow> u_isActive user = None"
  by (auto simp: getUserById_row row_object_def)

lemma extractToken_bearer: "token \<noteq> [] \<Longrightarrow> CHR '' '' \<notin> set token
    \<Longrightarrow> extractToken (bearer token) = Some token"
proof -
  assume ne: "token \<noteq> []" and nosp: "CHR '' '' \<notin> set token"
  have "split_str (CHR '' '') token = [token]"
    using nosp by (induction token) auto
  then have "extractTokenFromHeader (Some (''Bearer '' @ token)) = Some token"
    by (simp add: extractTokenFromHeader_def)
  with ne show ?thesis
    by (simp add: extractToken_def bearer_def truthy_str_def)
qed

text \<open>
  C6, the code on a request whose token verifies. When the directory has no user with the
  token's id the answer is 401 ``User not found''. When it has one, the answer is 403
  ``User account is deactivated'' although the row is active: the object read from the
  directory has the column \<open>is_active\<close> and no property \<open>isActive\<close>. In both cases
  the request is left as it was and the continuation is not invoked.
\<close>

theorem authenticate_verified_token:
  "(extractToken req = Some token \<and> verifyToken verify svc now token = Inr payload
      \<and> getUserById int4in db (p_userId payload) = None
      \<longrightarrow> authenticate verify svc int4in db now req
          = (req, [Respond 401 (ErrorBody ''User not found'')]))
   \<and> (extractToken req = Some token \<and> verifyToken verify svc now token = Inr payload
      \<and> id_param int4in (p_userId payload) = Some i
      \<and> find (\<lambda>r. c_id r = i) (users db) = Some r \<and> c_is_active r
      \<longrightarrow> authenticate verify svc int4in db now req
          = (req, [Respond 403 (ErrorBody ''User account is deactivated'')]))"
proof -
  have a: "authenticate verify svc int4in db now req
          = (req, [Respond 401 (ErrorBody ''User not found'')])"
    if "extractToken req = Some token \<and> verifyToken verify svc now token = Inr payload
      \<and> getUserById int4in db (p_userId payload) = None"
    using that extractToken_nonempty [of req token]
    by (simp add: authenticate_def)
  have b: "authenticate verify svc int4in db now req
          = (req, [Respond 403 (ErrorBody ''User account is deactivated'')])"
    if h: "extractToken req = Some token \<and> verifyToken verify svc now token = Inr payload
      \<and> id_param int4in (p_userId payload) = Some i
      \<and> find (\<lambda>r. c_id r = i) (users db) = Some r \<and> c_is_active r"
  proof -
    have "getUserById int4in db (p_userId payload) = Some (row_object r)"
      using h by (simp add: getUserById_def)
    then show ?thesis
      using h extractToken_nonempty [of req token]
      by (simp add: authenticate_def row_object_def truthy_bool_def)
  qed
  from a b show ?thesis by blast
qed

theorem authenticate_verified_token_witness:
  "c_is_active ann_row
   \<and> authenticate sample_verify sample_service digits_in sample_db 10 (bearer ''ann-token'')
     = (bearer ''ann-token'', [Respond 403 (ErrorBody ''User account is deactivated'')])
   \<and> authenticate sample_verify sample_service digits_in sample_db 10 (bearer ''eve-token'')
     = (bearer ''eve-token'', [Respond 401 (ErrorBody ''User not found'')])"
proof -
  have ann: "extractToken (bearer ''ann-token'') = Some ''ann-token''
      \<and> verifyToken sample_verify sample_service 10 ''ann-token'' = Inr (claims_of ann_row)
      \<and> id_param digits_in (p_userId (claims_of ann_row)) = Some 1
      \<and> find (\<lambda>r. c_id r = 1) (users sample_db) = Some ann_row \<and> c_is_active ann_row"
    by (simp add: extractToken_bearer verifyToken_def sample_verify_def claims_of_def
        id_param_def sample_db_def ann_row_def)
  have eve: "extractToken (bearer ''eve-token'') = Some ''eve-token''
      \<and> verifyToken sample_verify sample_service 10 ''eve-token''
          = Inr ((claims_of bob_row)\<lparr>p_userId := IdNum 7\<rparr>)
      \<and> getUserById digits_in sample_db (p_userId ((claims_of bob_row)\<lparr>p_userId := IdNum 7\<rparr>))
          = None"
    by (simp add: extractToken_bearer verifyToken_def sample_verify_def getUserById_def
        id_param_def sample_db_def ann_row_def bob_row_def)
  have a: "authenticate sample_verify sample_service digits_in sample_db 10 (bearer ''ann-token'')
     = (bearer ''ann-token'', [Respond 403 (ErrorBody ''User account is deactivated'')])"
    using authenticate_verified_token
      [of "bearer ''ann-token''" "''ann-token''" sample_verify sample_service 10
          "claims_of ann_row" digits_in sample_db 1 ann_row]
      ann
    by blast
  have b: "authenticate sample_verify sample_service digits_in sample_db 10 (bearer ''eve-token'')
     = (bearer ''eve-token'', [Respond 401 (ErrorBody ''User not found'')])"
    using authenticate_verified_token
      [of "bearer ''eve-token''" "''eve-token''" sample_verify sample_service 10
          "(claims_of bob_row)\<lparr>p_userId := IdNum 7\<rparr>" digits_in sample_db 1 ann_row]
      eve
    by blast
  from ann a b show ?thesis by simp
qed

lemma optionalAuth_try_request:
  "optionalAuth_try verify svc int4in db now req = Inr req' \<Longrightarrow> req' = req"
  by (auto simp: optionalAuth_try_def truthy_bool_def dest: getUserById_isActive
      split: option.splits if_splits sum.splits)

lemma optionalAuth_result: "optionalAuth verify svc int4in db now req = (req, [CallNext])"
  by (auto simp: optionalAuth_def dest: optionalAuth_try_request split: sum.splits)

text \<open>
  C9. \<open>optionalAuth\<close> sends no response and calls the continuation once, whatever the
  request; when the request has no token, or its token does not verify, the request goes
  on as it came, with no user attached by the middleware.
\<close>

theorem optionalAuth_always_continues:
  "snd (optionalAuth verify svc int4in db now req) = [CallNext]
   \<and> (extractToken req = None
        \<or> extractToken req = Some token \<and> verifyToken verify svc now token = Inl error
      \<longrightarrow> fst (optionalAuth verify svc int4in db now req) = req)"
  by (auto simp: optionalAuth_def optionalAuth_try_def split: sum.splits option.splits if_splits)

theorem optionalAuth_always_continues_witness:
  "optionalAuth sample_verify sample_service digits_in sample_db 10 plain_request
     = (plain_request, [CallNext])
   \<and> optionalAuth sample_verify sample_service digits_in sample_db 10 (bearer ''old-token'')
     = (bearer ''old-token'', [CallNext])
   \<and> optionalAuth sample_verify sample_service digits_in sample_db 10 (bearer ''garbage'')
     = (bearer ''garbage'', [CallNext])"
proof -
  have none: "extractToken plain_request = None"
    by (simp add: extractToken_def plain_request_def extractTokenFromHeader_def truthy_str_def)
  have old: "extractToken (bearer ''old-token'') = Some ''old-token''
      \<and> verifyToken sample_verify sample_service 10 ''old-token''
          = Inl (Error ''Token has expired'')"
    by (simp add: extractToken_bearer verifyToken_def sample_verify_def)
  have bad: "extractToken (bearer ''garbage'') = Some ''garbage''
      \<and> verifyToken sample_verify sample_service 10 ''garbage'' = Inl (Error ''Invalid token'')"
    by (simp add: extractToken_bearer verifyToken_def sample_verify_def)
  have a: "optionalAuth sample_verify sample_service digits_in sample_db 10 plain_request
     = (plain_request, [CallNext])"
    using optionalAuth_always_continues
      [of sample_verify sample_service digits_in sample_db 10 plain_request]
      none
    by (metis prod.collapse)
  have b: "optionalAuth sample_verify sample_service digits_in sample_db 10 (bearer ''old-token'')
     = (bearer ''old-token'', [CallNext])"
    using optionalAuth_always_continues
      [of sample_verify sample_service digits_in sample_db 10 "bearer ''old-token''"
          "''old-token''" "Error ''Token has expired''"]
      old
    by (metis prod.collapse)
  have c: "optionalAuth sample_verify sample_service digits_in sample_db 10 (bearer ''garbage'')
     = (bearer ''garbage'', [CallNext])"
    using optionalAuth_always_continues
      [of sample_verify sample_service digits_in sample_db 10 "bearer ''garbage''"
          "''garbage''" "Error ''Invalid token''"]
      bad
    by (metis prod.collapse)
  from a b c show ?thesis by simp
qed

text \<open>
  C10. Whenever the token is missing or does not verify, or the directory has no user
  with the token's id, or the user's row is deactivated, \<open>optionalAuth\<close> attaches nothing:
  it hands on the request as it came and calls the continuation. So a user is attached
  only if the token verifies and the user exists and is active, and a deactivated account
  is never authenticated.
\<close>

theorem optionalAuth_attaches_only_active:
  "(extractToken req = None
      \<or> extractToken req = Some token \<and> verifyToken verify svc now token = Inl error
      \<or> extractToken req = Some token \<and> verifyToken verify svc now token = Inr payload
         \<and> getUserById int4in db (p_userId payload) = None
      \<or> extractToken req = Some token \<and> verifyToken verify svc now token = Inr payload
         \<and> id_param int4in (p_userId payload) = Some i
         \<and> find (\<lambda>r. c_id r = i) (users db) = Some r \<and> \<not> c_is_active r
      \<longrightarrow> optionalAuth verify svc int4in db now req = (req, [CallNext]))"
  by (simp add: optionalAuth_result)

theorem optionalAuth_attaches_only_active_witness:
  "\<not> c_is_active bob_row
   \<and> verifyToken sample_verify sample_service 10 ''bob-token'' = Inr (claims_of bob_row)
   \<and> optionalAuth sample_verify sample_service digits_in sample_db 10 (bearer ''bob-token'')
     = (bearer ''bob-token'', [CallNext])"
proof -
  have bob: "extractToken (bearer ''bob-token'') = Some ''bob-token''
      \<and> verifyToken sample_verify sample_service 10 ''bob-token'' = Inr (claims_of bob_row)
      \<and> id_param digits_in (p_userId (claims_of bob_row)) = Some 2
      \<and> find (\<lambda>r. c_id r = 2) (users sample_db) = Some bob_row \<and> \<not> c_is_active bob_row"
    by (simp add: extractToken_bearer verifyToken_def sample_verify_def claims_of_def
        id_param_def sample_db_def ann_row_def bob_row_def)
  have "optionalAuth sample_verify sample_service digits_in sample_db 10 (bearer ''bob-token'')
     = (bearer ''bob-token'', [CallNext])"
    using optionalAuth_attaches_only_active
      [of "bearer ''bob-token''" "''bob-token''" sample_verify sample_service 10 _
          "claims_of bob_row" digits_in sample_db 2 bob_row]
      bob
    by blast
  with bob show ?thesis by simp
qed

section \<open>Properties of the role handler\<close>

lemma super_admins_getAllUsers:
  "filter (\<lambda>u. u_role u = ''super_admin'') (getAllUsers db)
     = map row_object (sort_key (\<lambda>r. - int (c_created_at r)) (super_admins db))"
proof -
  have "(\<lambda>u. u_role u = ''super_admin'') \<circ> row_object = (\<lambda>r. c_role r = ''super_admin'')"
    by (auto simp: row_object_def)
  then show ?thesis
    by (simp add: getAllUsers_def super_admins_def filter_map filter_sort)
qed





text \<open>
  The handler alone, on a request that names the last super admin by another spelling of
  its id. The guard compares the decimal text of the id with the path parameter, the
  update lets the storage engine read the parameter as an integer. When the engine reads
  \<open>userId\<close> as \<open>i\<close> and \<open>userId\<close> is not the decimal text of \<open>i\<close> (\<open>01\<close> for 1),
  the guard does not fire: the only super admin is set to the requested role, the answer
  is 200, and no super admin is left. Behind \<open>authenticate\<close> as it is, the handler does
  not receive such a request.
\<close>

lemma update_role_handler_other_spelling:
  "(int4in userId = Some i \<and> userId \<noteq> int_toString i
      \<and> (role = ''user'' \<or> role = ''admin'')
      \<and> super_admins db = [r] \<and> c_id r = i
      \<longrightarrow> (\<exists>db' u. update_role_handler int4in db now userId (Some role) = (db', 200, UserBody u)
            \<and> super_admins db' = []))"
proof (rule impI)
  assume h: "int4in userId = Some i \<and> userId \<noteq> int_toString i
      \<and> (role = ''user'' \<or> role = ''admin'')
      \<and> super_admins db = [r] \<and> c_id r = i"
  let ?upd = "\<lambda>x. if c_id x = i then x\<lparr>c_role := role, c_updated_at := now\<rparr> else x"
  let ?db' = "db\<lparr>users := map ?upd (users db)\<rparr>"
  have role: "role \<in> set [''user'', ''admin'', ''super_admin'']" "role \<noteq> ''super_admin''"
    using h by auto
  have sa: "filter (\<lambda>u. u_role u = ''super_admin'') (getAllUsers db) = [row_object r]"
    using h by (simp add: super_admins_getAllUsers)
  have guard: "\<not> (length [row_object r] = 1 \<and> id_toString (u_id ([row_object r] ! 0)) = userId)"
    using h by (auto simp: row_object_def)
  have "r \<in> set (super_admins db)" using h by simp
  then have r_in: "r \<in> set (users db)" by (simp add: super_admins_def)
  then have hit: "filter (\<lambda>x. c_id x = i) (users db) \<noteq> []"
    using h by (auto simp: filter_empty_conv)
  have upd: "updateUserRole int4in db now (IdStr userId) role = (?db', True)"
    using h role hit by (simp add: updateUserRole_def id_param_def)
  have only: "\<forall>x\<in>set (users db). c_role x = ''super_admin'' \<longrightarrow> x = r"
  proof (intro ballI impI)
    fix x assume "x \<in> set (users db)" "c_role x = ''super_admin''"
    then have "x \<in> set (super_admins db)" by (simp add: super_admins_def)
    with h show "x = r" by simp
  qed
  have none: "super_admins ?db' = []"
    using only h role by (auto simp: super_admins_def filter_empty_conv)
  have "update_role_handler int4in db now userId (Some role)
      = (?db', 200, UserBody (getUserById int4in ?db' (IdStr userId)))"
    using role guard sa upd by (simp add: update_role_handler_def Let_def)
  with none show "\<exists>db' u. update_role_handler int4in db now userId (Some role) = (db', 200, UserBody u)
            \<and> super_admins db' = []"
    by blast
qed

lemma update_role_handler_other_spelling_witness:
  "super_admins sample_db = [ann_row]
   \<and> (\<exists>db' u. update_role_handler digits_in sample_db 20 ''01'' (Some ''admin'')
                 = (db', 200, UserBody u)
        \<and> super_admins db' = [])"
proof -
  have h: "digits_in ''01'' = Some 1 \<and> ''01'' \<noteq> int_toString 1
      \<and> (''admin'' = ''user'' \<or> ''admin'' = ''admin'')
      \<and> super_admins sample_db = [ann_row] \<and> c_id ann_row = 1"
    by (simp add: digits_in_def int_toString_def nat_digits.simps super_admins_def sample_db_def
        ann_row_def bob_row_def)
  from update_role_handler_other_spelling
    [of digits_in "''01''" 1 "''admin''" sample_db ann_row 20] h
  show ?thesis by blast
qed

text \<open>
  When the path parameter is the decimal text of the id it is read as, the guard does its
  work: with distinct ids, a directory that has a super admin still has one after any
  request to the handler.
\<close>

lemma filter_id_le_1:
  "distinct (map f xs) \<Longrightarrow> length (filter (\<lambda>x. f x = i) xs) \<le> 1"
proof (induction xs)
  case Nil
  then show ?case by simp
next
  case (Cons x xs)
  show ?case
  proof (cases "f x = i")
    case True
    from Cons.prems have "f x \<notin> f ` set xs" by simp
    then have "\<forall>y\<in>set xs. f y \<noteq> f x" by (metis imageI)
    with True have "\<forall>y\<in>set xs. f y \<noteq> i" by simp
    then have "filter (\<lambda>x. f x = i) xs = []" by (simp add: filter_empty_conv)
    with True show ?thesis by simp
  next
    case False
    with Cons show ?thesis by simp
  qed
qed

lemma filter_map_nonempty: "x \<in> set xs \<Longrightarrow> P (f x) \<Longrightarrow> filter P (map f xs) \<noteq> []"
  by (induction xs) auto

lemma update_role_handler_keeps_super_admin:
  assumes some: "super_admins db \<noteq> []"
    and ids: "distinct (map c_id (users db))"
    and canonical: "\<And>i. int4in userId = Some i \<Longrightarrow> userId = int_toString i"
  shows "super_admins (fst (update_role_handler int4in db now userId role)) \<noteq> []"
proof (cases role)
  case None
  with some show ?thesis by (simp add: update_role_handler_def)
next
  case (Some ro)
  show ?thesis
  proof (cases "ro \<in> set [''user'', ''admin'', ''super_admin'']")
    case False
    with Some some show ?thesis by (simp add: update_role_handler_def)
  next
    case valid: True
    let ?guard = "ro \<noteq> ''super_admin'' \<and>
        (let allUsers = getAllUsers db;
             superAdmins = filter (\<lambda>u. u_role u = ''super_admin'') allUsers
         in length superAdmins = 1 \<and> id_toString (u_id (superAdmins ! 0)) = userId)"
    show ?thesis
    proof (cases ?guard)
      case True
      with Some valid some show ?thesis by (simp add: update_role_handler_def)
    next
      case noguard: False
      show ?thesis
      proof (cases "int4in userId")
        case None
        then have "updateUserRole int4in db now (IdStr userId) ro = (db, False)"
          using valid by (simp add: updateUserRole_def id_param_def)
        with \<open>role = Some ro\<close> valid noguard some show ?thesis
          by (auto simp: update_role_handler_def)
      next
        case (Some i)
        let ?upd = "\<lambda>x. if c_id x = i then x\<lparr>c_role := ro, c_updated_at := now\<rparr> else x"
        let ?db' = "db\<lparr>users := map ?upd (users db)\<rparr>"
        have upd: "updateUserRole int4in db now (IdStr userId) ro
            = (?db', length (filter (\<lambda>r. c_id r = i) (users db)) > 0)"
          using valid Some by (simp add: updateUserRole_def id_param_def)
        have db': "fst (update_role_handler int4in db now userId role) = ?db'"
          using \<open>role = Some ro\<close> valid noguard upd
          by (auto simp: update_role_handler_def)
        have spelled: "userId = int_toString i"
          using canonical Some by simp
        have "\<exists>x\<in>set (users db). c_role (?upd x) = ''super_admin''"
        proof (cases "ro = ''super_admin''")
          case True
          from some obtain x where "x \<in> set (users db)" "c_role x = ''super_admin''"
            by (auto simp: super_admins_def filter_empty_conv)
          with True show ?thesis by auto
        next
          case demote: False
          have "\<exists>x\<in>set (users db). c_role x = ''super_admin'' \<and> c_id x \<noteq> i"
          proof (rule ccontr)
            assume "\<not> (\<exists>x\<in>set (users db). c_role x = ''super_admin'' \<and> c_id x \<noteq> i)"
            then have all: "\<forall>x\<in>set (users db). c_role x = ''super_admin'' \<longrightarrow> c_id x = i"
              by auto
            then have "super_admins db = filter (\<lambda>x. c_role x = ''super_admin'')
                (filter (\<lambda>x. c_id x = i) (users db))"
              by (auto simp: super_admins_def intro: filter_cong)
            then have "length (super_admins db) \<le> length (filter (\<lambda>x. c_id x = i) (users db))"
              by (metis length_filter_le)
            with filter_id_le_1 [OF ids, of i] have "length (super_admins db) \<le> 1"
              by simp
            with some obtain r where one: "super_admins db = [r]"
              by (cases "super_admins db") auto
            then have "r \<in> set (super_admins db)" by simp
            then have "r \<in> set (users db)" "c_role r = ''super_admin''"
              by (simp_all add: super_admins_def)
            with all have "c_id r = i" by simp
            have "filter (\<lambda>u. u_role u = ''super_admin'') (getAllUsers db) = [row_object r]"
              using one by (simp add: super_admins_getAllUsers)
            with demote \<open>c_id r = i\<close> spelled have ?guard
              by (simp add: row_object_def)
            with noguard show False by simp
          qed
          then show ?thesis by auto
        qed
        then obtain x where x: "x \<in> set (users db)" "c_role (?upd x) = ''super_admin''"
          by blast
        have "filter (\<lambda>r. c_role r = ''super_admin'') (map ?upd (users db)) \<noteq> []"
          using filter_map_nonempty [of x "users db" "\<lambda>r. c_role r = ''super_admin''" ?upd] x
          by blast
        then have "super_admins ?db' \<noteq> []"
          by (simp add: super_admins_def)
        with db' show ?thesis by simp
      qed
    qed
  qed
qed

lemma update_role_handler_keeps_super_admin_witness:
  "super_admins sample_db \<noteq> []
   \<and> super_admins (fst (update_role_handler digits_in sample_db 20 ''1'' (Some ''admin''))) \<noteq> []"
proof -
  have some: "super_admins sample_db \<noteq> []"
    by (simp add: super_admins_def sample_db_def ann_row_def)
  have ids: "distinct (map c_id (users sample_db))"
    by (simp add: sample_db_def ann_row_def bob_row_def)
  have canonical: "\<And>i. digits_in ''1'' = Some i \<Longrightarrow> ''1'' = int_toString i"
    by (auto simp: digits_in_def int_toString_def nat_digits.simps)
  from update_role_handler_keeps_super_admin
    [where int4in = digits_in and userId = "''1''" and db = sample_db and now = 20
       and role = "Some ''admin''", OF some ids canonical]
    some
  show ?thesis by simp
qed

section \<open>Properties of the rate limiter\<close>

lemma rateLimit_first:
  "requests (identifier_of r) = None \<Longrightarrow>
   rateLimit m w requests r t
     = (requests(identifier_of r \<mapsto> \<lparr>count = 1, resetTime = t + w\<rparr>), [CallNext])"
  by (simp add: rateLimit_def Let_def)

lemma rateLimit_after:
  "requests (identifier_of r) = Some e \<Longrightarrow> resetTime e < t \<Longrightarrow>
   rateLimit m w requests r t
     = (requests(identifier_of r \<mapsto> \<lparr>count = 1, resetTime = t + w\<rparr>), [CallNext])"
  by (simp add: rateLimit_def Let_def)

lemma rateLimit_within:
  "requests (identifier_of r) = Some \<lparr>count = c, resetTime = R\<rparr> \<Longrightarrow> t \<le> R \<Longrightarrow>
   rateLimit m w requests r t
     = (if m \<le> c then (requests, [Respond 429 (RetryBody ''Too many requests'' (ceil_div (R - t) 1000))])
        else (requests(identifier_of r \<mapsto> \<lparr>count = c + 1, resetTime = R\<rparr>), [CallNext]))"
  by (simp add: rateLimit_def Let_def)

lemma rateLimit_run_append:
  "rateLimit_run m w requests (xs @ ys)
     = (case rateLimit_run m w requests xs of
          (requests', evs) \<Rightarrow>
            (case rateLimit_run m w requests' ys of
               (requests'', evs') \<Rightarrow> (requests'', evs @ evs')))"
  by (induction xs arbitrary: requests) (auto split: prod.splits)

lemma rateLimit_run_within:
  assumes "requests (identifier_of r) = Some \<lparr>count = c, resetTime = R\<rparr>"
    and "\<forall>t\<in>set ts. t \<le> R"
  shows "rateLimit_run m w requests (map (\<lambda>t. (r, t)) ts)
     = (requests(identifier_of r \<mapsto>
          \<lparr>count = max c (min m (c + int (length ts))), resetTime = R\<rparr>),
        replicate (min (length ts) (nat (m - c))) [CallNext]
        @ map (\<lambda>t. [Respond 429 (RetryBody ''Too many requests'' (ceil_div (R - t) 1000))]) (drop (nat (m - c)) ts))"
  using assms
proof (induction ts arbitrary: requests c)
  case Nil
  have same: "requests(identifier_of r \<mapsto> \<lparr>count = c, resetTime = R\<rparr>) = requests"
    using Nil.prems(1) by (rule map_upd_triv)
  have "max c (min m (c + int (length ([]::int list)))) = c"
    by simp
  then show ?case by (simp add: same)
next
  case (Cons t ts)
  from Cons.prems have le: "t \<le> R" and rest: "\<forall>t\<in>set ts. t \<le> R" by simp_all
  show ?case
  proof (cases "m \<le> c")
    case True
    have step: "rateLimit m w requests r t = (requests, [Respond 429 (RetryBody ''Too many requests'' (ceil_div (R - t) 1000))])"
      using rateLimit_within [of requests r c R t m w] Cons.prems(1) le True by simp
    have z: "nat (m - c) = 0" using True by simp
    have cnt: "max c (min m (c + int (length ts))) = max c (min m (c + int (length (t # ts))))"
      using True by simp
    note ih = Cons.IH [of requests c, OF Cons.prems(1) rest, unfolded cnt z]
    show ?thesis
      by (simp add: step ih z)
  next
    case False
    let ?requests = "requests(identifier_of r \<mapsto> \<lparr>count = c + 1, resetTime = R\<rparr>)"
    have step: "rateLimit m w requests r t = (?requests, [CallNext])"
      using rateLimit_within [of requests r c R t m w] Cons.prems(1) le False by simp
    have entry: "?requests (identifier_of r) = Some \<lparr>count = c + 1, resetTime = R\<rparr>" by simp
    have n: "nat (m - c) = Suc (nat (m - (c + 1)))" using False by simp
    have cnt: "max (c + 1) (min m (c + 1 + int (length ts)))
        = max c (min m (c + int (length (t # ts))))"
      using False by simp
    note ih = Cons.IH [of ?requests "c + 1", OF entry rest, unfolded cnt fun_upd_upd]
    show ?thesis
      by (simp add: step ih n)
  qed
qed

lemma ceil_div_1000:
  assumes "0 \<le> d"
  shows "0 \<le> ceil_div d 1000 \<and> (0 < ceil_div d 1000 \<longleftrightarrow> 0 < d)
     \<and> 1000 * (ceil_div d 1000 - 1) < d \<and> d \<le> 1000 * ceil_div d 1000"
proof -
  define q where "q = (- d) div 1000"
  define x where "x = (- d) mod 1000"
  have eq: "- d = 1000 * q + x"
    by (simp add: q_def x_def)
  have "0 \<le> x" and "x < 1000"
    by (simp_all add: x_def)
  with eq assms show ?thesis
    unfolding ceil_div_def q_def [symmetric] by auto
qed

text \<open>
  C8 (amended). For one client with no counter yet, a request at time \<open>t0\<close>, then
  requests \<open>ts\<close> arriving no later than the deadline \<open>t0 + w\<close>, then a request after
  the deadline: the opening request invokes the continuation, and so do the following
  ones while fewer than \<open>m\<close> requests have been counted; every further request up to the
  deadline is answered 429 with \<open>retryAfter\<close> the milliseconds left to the deadline
  divided by 1000 and rounded up, which is positive for a request before the deadline and
  0 for a request exactly at the deadline; the request after the deadline invokes the
  continuation and opens a window of its own with count 1.
\<close>

theorem rateLimit_window:
  "requests (identifier_of r) = None \<and> (\<forall>t\<in>set ts. t \<le> t0 + w) \<and> t0 + w < t'
   \<longrightarrow> snd (rateLimit_run m w requests (map (\<lambda>t. (r, t)) (t0 # ts @ [t'])))
         = [CallNext] # replicate (min (length ts) (nat (m - 1))) [CallNext]
           @ map (\<lambda>t. [Respond 429 (RetryBody ''Too many requests''
                                      (ceil_div (t0 + w - t) 1000))])
               (drop (nat (m - 1)) ts)
           @ [[CallNext]]
     \<and> fst (rateLimit_run m w requests (map (\<lambda>t. (r, t)) (t0 # ts @ [t']))) (identifier_of r)
         = Some \<lparr>count = 1, resetTime = t' + w\<rparr>
     \<and> (\<forall>t\<in>set ts. 0 \<le> ceil_div (t0 + w - t) 1000
           \<and> (0 < ceil_div (t0 + w - t) 1000 \<longleftrightarrow> t < t0 + w)
           \<and> 1000 * (ceil_div (t0 + w - t) 1000 - 1) < t0 + w - t
           \<and> t0 + w - t \<le> 1000 * ceil_div (t0 + w - t) 1000)"
proof (rule impI)
  assume h: "requests (identifier_of r) = None \<and> (\<forall>t\<in>set ts. t \<le> t0 + w) \<and> t0 + w < t'"
  let ?id = "identifier_of r"
  let ?r1 = "requests(?id \<mapsto> \<lparr>count = 1, resetTime = t0 + w\<rparr>)"
  let ?c = "max 1 (min m (1 + int (length ts)))"
  let ?r2 = "requests(?id \<mapsto> \<lparr>count = ?c, resetTime = t0 + w\<rparr>)"
  let ?r3 = "requests(?id \<mapsto> \<lparr>count = 1, resetTime = t' + w\<rparr>)"
  let ?evs = "replicate (min (length ts) (nat (m - 1))) [CallNext]
        @ map (\<lambda>t. [Respond 429 (RetryBody ''Too many requests'' (ceil_div (t0 + w - t) 1000))]) (drop (nat (m - 1)) ts)"
  from h have fresh: "requests ?id = None" and within: "\<forall>t\<in>set ts. t \<le> t0 + w"
    and late: "t0 + w < t'"
    by simp_all
  have first: "rateLimit m w requests r t0 = (?r1, [CallNext])"
    using fresh by (rule rateLimit_first)
  have e1: "?r1 ?id = Some \<lparr>count = 1, resetTime = t0 + w\<rparr>" by simp
  have mid: "rateLimit_run m w ?r1 (map (\<lambda>t. (r, t)) ts) = (?r2, ?evs)"
    using rateLimit_run_within [of ?r1 r 1 "t0 + w" ts m w, OF e1 within] by simp
  have e2: "?r2 ?id = Some \<lparr>count = ?c, resetTime = t0 + w\<rparr>" by simp
  have last: "rateLimit m w ?r2 r t' = (?r3, [CallNext])"
    using rateLimit_after [of ?r2 r "\<lparr>count = ?c, resetTime = t0 + w\<rparr>" t' m w, OF e2] late
    by simp
  have tail: "rateLimit_run m w ?r1 (map (\<lambda>t. (r, t)) (ts @ [t']))
      = (?r3, ?evs @ [[CallNext]])"
    by (simp add: rateLimit_run_append mid last)
  have run: "rateLimit_run m w requests (map (\<lambda>t. (r, t)) (t0 # ts @ [t']))
      = (?r3, [CallNext] # ?evs @ [[CallNext]])"
    using tail by (simp add: first)
  have retry: "\<forall>t\<in>set ts. 0 \<le> ceil_div (t0 + w - t) 1000
           \<and> (0 < ceil_div (t0 + w - t) 1000 \<longleftrightarrow> t < t0 + w)
           \<and> 1000 * (ceil_div (t0 + w - t) 1000 - 1) < t0 + w - t
           \<and> t0 + w - t \<le> 1000 * ceil_div (t0 + w - t) 1000"
  proof
    fix t assume "t \<in> set ts"
    with within have "0 \<le> t0 + w - t" by auto
    from ceil_div_1000 [OF this] show "0 \<le> ceil_div (t0 + w - t) 1000
           \<and> (0 < ceil_div (t0 + w - t) 1000 \<longleftrightarrow> t < t0 + w)
           \<and> 1000 * (ceil_div (t0 + w - t) 1000 - 1) < t0 + w - t
           \<and> t0 + w - t \<le> 1000 * ceil_div (t0 + w - t) 1000"
      by auto
  qed
  have events: "snd (rateLimit_run m w requests (map (\<lambda>t. (r, t)) (t0 # ts @ [t'])))
         = [CallNext] # replicate (min (length ts) (nat (m - 1))) [CallNext]
           @ map (\<lambda>t. [Respond 429 (RetryBody ''Too many requests''
                                      (ceil_div (t0 + w - t) 1000))])
               (drop (nat (m - 1)) ts)
           @ [[CallNext]]"
    unfolding run by simp
  have state: "fst (rateLimit_run m w requests (map (\<lambda>t. (r, t)) (t0 # ts @ [t'])))
         (identifier_of r) = Some \<lparr>count = 1, resetTime = t' + w\<rparr>"
    unfolding run by simp
  from events state retry
  show "snd (rateLimit_run m w requests (map (\<lambda>t. (r, t)) (t0 # ts @ [t'])))
         = [CallNext] # replicate (min (length ts) (nat (m - 1))) [CallNext]
           @ map (\<lambda>t. [Respond 429 (RetryBody ''Too many requests''
                                      (ceil_div (t0 + w - t) 1000))])
               (drop (nat (m - 1)) ts)
           @ [[CallNext]]
     \<and> fst (rateLimit_run m w requests (map (\<lambda>t. (r, t)) (t0 # ts @ [t']))) (identifier_of r)
         = Some \<lparr>count = 1, resetTime = t' + w\<rparr>
     \<and> (\<forall>t\<in>set ts. 0 \<le> ceil_div (t0 + w - t) 1000
           \<and> (0 < ceil_div (t0 + w - t) 1000 \<longleftrightarrow> t < t0 + w)
           \<and> 1000 * (ceil_div (t0 + w - t) 1000 - 1) < t0 + w - t
           \<and> t0 + w - t \<le> 1000 * ceil_div (t0 + w - t) 1000)"
    by (intro conjI)
qed

theorem rateLimit_window_witness:
  "snd (rateLimit_run 2 60000 Map.empty
     (map (\<lambda>t. (\<lparr>h_authorization = None, cookie_auth_token = None, query_token = None,
                  h_x_auth_token = None, req_ip = Some ''10.0.0.1'', req_user = None\<rparr>, t))
        [0, 1, 59999, 60001]))
   = [[CallNext], [CallNext], [Respond 429 (RetryBody ''Too many requests'' 1)], [CallNext]]"
proof -
  let ?r = "\<lparr>h_authorization = None, cookie_auth_token = None, query_token = None,
             h_x_auth_token = None, req_ip = Some ''10.0.0.1'', req_user = None\<rparr>"
  have hyp: "Map.empty (identifier_of ?r) = None \<and> (\<forall>t\<in>set [1, 59999]. t \<le> 0 + (60000::int))
      \<and> 0 + (60000::int) < 60001"
    by simp
  have cd: "ceil_div 1 1000 = 1"
    by (simp add: ceil_div_def)
  from rateLimit_window [of Map.empty ?r "[1, 59999]" 0 60000 60001 2] hyp
  have "snd (rateLimit_run 2 60000 Map.empty (map (\<lambda>t. (?r, t)) (0 # [1, 59999] @ [60001])))
         = [CallNext] # replicate (min (length [1, 59999 :: int]) (nat (2 - 1))) [CallNext]
           @ map (\<lambda>t. [Respond 429 (RetryBody ''Too many requests''
                                      (ceil_div (0 + 60000 - t) 1000))])
               (drop (nat (2 - 1)) [1, 59999])
           @ [[CallNext]]"
    by blast
  then show ?thesis
    by (simp add: cd del: rateLimit_run.simps)
qed

text \<open>
  The claim as stated fails at the deadline itself: with \<open>rateLimit(2, 60000)\<close>, a third
  request arriving exactly 60000 ms after the first is still inside the window and is
  answered 429 with \<open>retryAfter\<close> 0, which is not positive.
\<close>

theorem rateLimit_counterexample:
  "snd (rateLimit_run 2 60000 Map.empty
     [(\<lparr>h_authorization = None, cookie_auth_token = None, query_token = None,
        h_x_auth_token = None, req_ip = Some ''10.0.0.1'', req_user = None\<rparr>, 0),
      (\<lparr>h_authorization = None, cookie_auth_token = None, query_token = None,
        h_x_auth_token = None, req_ip = Some ''10.0.0.1'', req_user = None\<rparr>, 1),
      (\<lparr>h_authorization = None, cookie_auth_token = None, query_token = None,
        h_x_auth_token = None, req_ip = Some ''10.0.0.1'', req_user = None\<rparr>, 60000)])
   = [[CallNext], [CallNext], [Respond 429 (RetryBody ''Too many requests'' 0)]]"
  by (simp add: rateLimit_def identifier_of_def ceil_div_def Let_def)

end
